theory Spec2Isabelle
  imports Complex_Main
begin

section \<open>The Electron main process of the fact checker: session control and event relay\<close>

text \<open>
  The main process (\<^verbatim>\<open>app/main.js\<close>) keeps its state in module-level variables and
  reacts to events: IPC invocations from the renderer, output and exit of its two child
  processes, the HTTP event stream, and timers. The embedding is a state machine:
  \<^item> the module-level variables are the fields of the record \<open>state\<close>;
  \<^item> every JavaScript function that runs synchronously is a function from a state to
    the new state and the list of effects it performed on the outside world, in order;
  \<^item> an \<^verbatim>\<open>await\<close> of the two asynchronous IPC handlers is a value of \<open>pending\<close>
    stored in the state: the handler stops there and is resumed by the event that
    settles the awaited promise. An \<^verbatim>\<open>await\<close> on a promise that is already settled
    resumes in a microtask, before any other event, so the model continues at once;
  \<^item> objects created at run time (child processes, HTTP requests) are natural numbers,
    allocated from the counter \<open>fresh\<close>; the closure variables of a request's callbacks
    (\<^verbatim>\<open>lastId\<close>, \<^verbatim>\<open>buffer\<close>, \<^verbatim>\<open>currentLastId\<close>) are stored per request in \<open>conns\<close>;
  \<^item> what the program asks of its environment (\<^verbatim>\<open>JSON.parse\<close>, the file system) is a
    parameter, the record \<open>env\<close>.
  Console logging is left out, and so is the placement of the window. Strings are
  lists of ASCII characters. The arguments of an invocation are strings, as the
  renderer sends them.
\<close>

subsection \<open>Strings\<close>

text \<open>\<^verbatim>\<open>s.startsWith(p)\<close> and \<^verbatim>\<open>s.includes(p)\<close>.\<close>

fun startsWith :: "string \<Rightarrow> string \<Rightarrow> bool" where
  "startsWith s [] = True"
| "startsWith [] (p # ps) = False"
| "startsWith (c # s) (p # ps) = (c = p \<and> startsWith s ps)"

fun includes_str :: "string \<Rightarrow> string \<Rightarrow> bool" where
  "includes_str [] p = (p = [])"
| "includes_str (c # s) p = (startsWith (c # s) p \<or> includes_str s p)"

text \<open>
  \<^verbatim>\<open>s.split(sep)\<close> for a separator that is not empty: the pieces between the
  occurrences of \<open>sep\<close>, found from the left; the result is never empty.
\<close>

fun cons_head :: "char \<Rightarrow> string list \<Rightarrow> string list" where
  "cons_head c [] = [[c]]"
| "cons_head c (p # ps) = (c # p) # ps"

function split_str :: "string \<Rightarrow> string \<Rightarrow> string list" where
  "split_str sep [] = [[]]"
| "split_str sep (c # s) =
     (if sep \<noteq> [] \<and> startsWith (c # s) sep
      then [] # split_str sep (drop (length sep) (c # s))
      else cons_head c (split_str sep s))"
  by pat_completeness auto
termination
  by (relation "measure (\<lambda>(sep, s). length s)") auto

text \<open>White space as \<^verbatim>\<open>trim\<close> and \<^verbatim>\<open>parseInt\<close> skip it (the ASCII part of it).\<close>

definition isWhitespace :: "char \<Rightarrow> bool" where
  "isWhitespace c = (c \<in> set [CHR '' '', CHR 0x09, CHR 0x0A, CHR 0x0B, CHR 0x0C, CHR 0x0D])"

definition trim :: "string \<Rightarrow> string" where
  "trim s = rev (dropWhile isWhitespace (rev (dropWhile isWhitespace s)))"

definition isDigit :: "char \<Rightarrow> bool" where
  "isDigit c = (48 \<le> (of_char c :: nat) \<and> (of_char c :: nat) \<le> 57)"

fun digits_value :: "int \<Rightarrow> string \<Rightarrow> int" where
  "digits_value acc [] = acc"
| "digits_value acc (c # cs) = digits_value (10 * acc + (of_char c - 48)) cs"

text \<open>
  \<^verbatim>\<open>parseInt(s, 10)\<close>: leading white space, an optional sign, then the longest run of
  decimal digits; \<open>None\<close> stands for \<^verbatim>\<open>NaN\<close> (no digit). The value is exact as long
  as it is below \<open>2 ^ 53\<close> in size, which event identifiers are.
\<close>

definition parseInt :: "string \<Rightarrow> int option" where
  "parseInt s =
     (let s1 = dropWhile isWhitespace s;
          neg = (s1 \<noteq> [] \<and> hd s1 = CHR ''-'');
          s2 = (if s1 \<noteq> [] \<and> (hd s1 = CHR ''-'' \<or> hd s1 = CHR ''+'') then tl s1 else s1);
          ds = takeWhile isDigit s2
      in if ds = [] then None
         else Some (if neg then - digits_value 0 ds else digits_value 0 ds))"

text \<open>
  \<^verbatim>\<open>String(n)\<close> for an integer, and for an exit code that may be \<^verbatim>\<open>null\<close>. The
  first argument of \<open>nat_digits\<close> bounds the number of digits; \<open>n + 1\<close> is enough
  for \<open>n\<close>.
\<close>

fun nat_digits :: "nat \<Rightarrow> nat \<Rightarrow> string" where
  "nat_digits 0 n = []"
| "nat_digits (Suc fuel) n =
     (if n < 10 then [char_of (48 + n)]
      else nat_digits fuel (n div 10) @ [char_of (48 + n mod 10)])"

definition String_int :: "int \<Rightarrow> string" where
  "String_int i =
     (if i < 0 then CHR ''-'' # nat_digits (Suc (nat (- i))) (nat (- i))
      else nat_digits (Suc (nat i)) (nat i))"

definition String_code :: "int option \<Rightarrow> string" where
  "String_code code = (case code of None \<Rightarrow> ''null'' | Some i \<Rightarrow> String_int i)"

subsection \<open>State and effects\<close>

type_synonym proc = nat
type_synonym req = nat

datatype signal = SIGINT | SIGTERM | SIGKILL

text \<open>A value that \<^verbatim>\<open>JSON.parse\<close> returns.\<close>

datatype json =
    JNull
  | JBool bool
  | JNumber rat
  | JString string
  | JArray "json list"
  | JObject "(string \<times> json) list"

text \<open>What \<^verbatim>\<open>popupWindow.webContents.send(channel, payload)\<close> sends to the renderer.\<close>

datatype message =
    FactCheckAlert json
  | SessionStatus string
  | BackendStatus string
  | ErrorMessage string string

datatype ipc = StartSession | StopSession | PauseSession | ResumeSession | GetSessionState

text \<open>
  The value an IPC handler returns: \<^verbatim>\<open>{success: true}\<close>, \<^verbatim>\<open>{success: false, error}\<close>,
  or the snapshot \<^verbatim>\<open>{backendRunning, clientRunning, sseConnected, isPaused}\<close>.
\<close>

datatype result = Success | Failure string | Snapshot bool bool bool bool

datatype effect =
    SpawnBackend proc
  | SpawnClient proc
  | StdinWrite proc string
  | StdinEnd proc
  | Kill proc signal
  | HttpGet req int
  | Destroy req
  | SetReconnectTimer rat int
  | ClearReconnectTimer
  | Send message
  | OpenExternal string
  | TraySetActive bool
  | TrayDestroy
  | RemoveIpcHandlers
  | Reply ipc result

text \<open>
  The closure of one \<^verbatim>\<open>connectSSE(lastId)\<close> call: its parameter, whether the response
  callback has attached the stream handlers (status 200), and the two variables of
  the response callback.
\<close>

record conn =
  c_lastId :: int
  c_streaming :: bool
  c_buffer :: string
  c_currentLastId :: int

text \<open>
  Where an asynchronous handler of a session operation waits. \<open>AwaitBackend\<close>,
  \<open>AwaitClient\<close>, \<open>AwaitRollback\<close> and \<open>AwaitStop\<close> name the process whose promise
  is awaited; the start operation carries its arguments and the rollback its error.
\<close>

datatype pending =
    NoOp
  | AwaitPermissions string string
  | AwaitBackend proc string string
  | AwaitHealth string string
  | AwaitClient proc
  | AwaitRollback string proc
  | AwaitStop proc

text \<open>The stages of \<^verbatim>\<open>shutdownApp\<close>, which awaits the two stops in turn.\<close>

datatype shutdown = NotShutting | ShutAwaitClient proc | ShutAwaitBackend proc | ShutDone

record state =
  backendProcess :: "proc option"
  clientProcess :: "proc option"
  sseRequest :: "req option"
  tray :: bool
  popupWindow :: bool
  isShuttingDown :: bool
  isPaused :: bool
  sseReconnectTimer :: "int option"
  sseBackoffDelay :: rat
  sessionOpInProgress :: bool
  handlersRegistered :: bool
  sessionOp :: pending
  shutdownOp :: shutdown
  conns :: "req \<Rightarrow> conn option"
  fresh :: nat

text \<open>
  \<open>tray\<close> and \<open>popupWindow\<close> say whether the object exists (and, for the window, is
  not destroyed). \<open>sseReconnectTimer\<close> holds the \<^verbatim>\<open>lastId\<close> its callback will reconnect
  with. \<open>sseBackoffDelay\<close> is a JavaScript number; every value the program computes
  from 2000 by multiplying with 1.5 below 30000 is a multiple of 1/4 and exact in
  floating point, so rationals model it exactly.
\<close>

definition SSE_BACKOFF_INITIAL :: rat where "SSE_BACKOFF_INITIAL = 2000"
definition SSE_BACKOFF_MULTIPLIER :: rat where "SSE_BACKOFF_MULTIPLIER = 3 / 2"
definition SSE_BACKOFF_MAX :: rat where "SSE_BACKOFF_MAX = 30000"

definition initial :: state where
  "initial = \<lparr> backendProcess = None, clientProcess = None, sseRequest = None,
     tray = True, popupWindow = True, isShuttingDown = False, isPaused = False,
     sseReconnectTimer = None, sseBackoffDelay = 2000, sessionOpInProgress = False,
     handlersRegistered = True, sessionOp = NoOp, shutdownOp = NotShutting,
     conns = (\<lambda>r. None), fresh = 0 \<rparr>"

text \<open>
  \<open>initial\<close> is the state when the application is ready: the tray and the window
  exist, nothing runs.
\<close>

text \<open>What the program reads from its environment and does not compute itself.\<close>

record env =
  JSON_parse :: "string \<Rightarrow> json option"
  pythonPath :: string
  existsSync :: bool
  inherited_text :: "string \<Rightarrow> string"

text \<open>
  \<open>JSON_parse\<close> is \<^verbatim>\<open>JSON.parse\<close>, with \<open>None\<close> where it throws; \<open>pythonPath\<close> is the
  result of \<^verbatim>\<open>getPythonPath()\<close> and \<open>existsSync\<close> whether that file exists;
  \<open>inherited_text k\<close> is the text that a template literal makes of the property \<open>k\<close>
  that every object literal inherits from \<^verbatim>\<open>Object.prototype\<close>.
\<close>

subsection \<open>Notifications to the renderer and the tray\<close>

definition sendToRenderer :: "message \<Rightarrow> state \<Rightarrow> effect list" where
  "sendToRenderer m s = (if popupWindow s then [Send m] else [])"

definition sendErrorToRenderer :: "string \<Rightarrow> string \<Rightarrow> state \<Rightarrow> effect list" where
  "sendErrorToRenderer title detail s = sendToRenderer (ErrorMessage title detail) s"

definition setTrayActive :: "bool \<Rightarrow> state \<Rightarrow> effect list" where
  "setTrayActive active s = (if tray s then [TraySetActive active] else [])"

subsection \<open>The SSE relay\<close>

definition disconnectSSE :: "state \<Rightarrow> state \<times> effect list" where
  "disconnectSSE s =
     (let e1 = (case sseReconnectTimer s of None \<Rightarrow> [] | Some t \<Rightarrow> [ClearReconnectTimer]);
          e2 = (case sseRequest s of None \<Rightarrow> [] | Some r \<Rightarrow> [Destroy r])
      in (s\<lparr>sseReconnectTimer := None, sseRequest := None,
              sseBackoffDelay := SSE_BACKOFF_INITIAL\<rparr>, e1 @ e2))"

text \<open>
  \<^verbatim>\<open>connectSSE(lastId)\<close> up to the return of \<^verbatim>\<open>http.get\<close>: the new request \<open>r\<close> is
  stored, with the closure its callbacks will use.
\<close>

definition connectSSE :: "int \<Rightarrow> state \<Rightarrow> state \<times> effect list" where
  "connectSSE lid s =
     (case disconnectSSE s of (s1, e1) \<Rightarrow>
        (let r = fresh s1
         in (s1\<lparr>sseRequest := Some r, fresh := Suc r,
                 conns := (conns s1)(r \<mapsto> \<lparr>c_lastId = lid, c_streaming = False,
                                             c_buffer = [], c_currentLastId = lid\<rparr>)\<rparr>,
             e1 @ [HttpGet r lid])))"

definition scheduleSSEReconnect :: "int \<Rightarrow> state \<Rightarrow> state \<times> effect list" where
  "scheduleSSEReconnect lid s =
     (if sseReconnectTimer s \<noteq> None then (s, [])
      else (s\<lparr>sseReconnectTimer := Some lid,
                sseBackoffDelay := min (sseBackoffDelay s * SSE_BACKOFF_MULTIPLIER) SSE_BACKOFF_MAX\<rparr>,
            [SetReconnectTimer (sseBackoffDelay s) lid]))"

text \<open>The callback of the reconnect timer.\<close>

definition reconnect_timer_fired :: "state \<Rightarrow> state \<times> effect list" where
  "reconnect_timer_fired s =
     (case sseReconnectTimer s of
        None \<Rightarrow> (s, [])
      | Some lid \<Rightarrow> connectSSE lid (s\<lparr>sseReconnectTimer := None\<rparr>))"

text \<open>The response callback of request \<open>r\<close>, called with the status code.\<close>

definition sse_response :: "req \<Rightarrow> nat \<Rightarrow> state \<Rightarrow> state \<times> effect list" where
  "sse_response r status s =
     (case conns s r of
        None \<Rightarrow> (s, [])
      | Some c \<Rightarrow>
          if status \<noteq> 200 then
            (case scheduleSSEReconnect (c_lastId c) s of (s1, e1) \<Rightarrow>
               (s1, sendErrorToRenderer ''SSE connection failed''
                      (''Backend returned status '' @ String_int (int status)) s @ e1))
          else
            (s\<lparr>sseBackoffDelay := SSE_BACKOFF_INITIAL,
               conns := (conns s)(r \<mapsto> c\<lparr>c_streaming := True, c_buffer := [],
                                            c_currentLastId := c_lastId c\<rparr>)\<rparr>, []))"

text \<open>
  The inner loop over the lines of one event block: \<open>eventId\<close> and \<open>eventData\<close> start
  as \<^verbatim>\<open>null\<close>. \<open>None\<close> for \<open>eventId\<close> stands for \<^verbatim>\<open>null\<close> and for \<^verbatim>\<open>NaN\<close>, which the
  program does not tell apart (it only tests \<^verbatim>\<open>if (eventId)\<close>).
\<close>

fun event_lines :: "string list \<Rightarrow> int option \<Rightarrow> string option \<Rightarrow> int option \<times> string option" where
  "event_lines [] eventId eventData = (eventId, eventData)"
| "event_lines (line # ls) eventId eventData =
     (if startsWith line '':'' then event_lines ls eventId eventData
      else if startsWith line ''id: '' then event_lines ls (parseInt (drop 4 line)) eventData
      else if startsWith line ''data: '' then event_lines ls eventId (Some (drop 6 line))
      else event_lines ls eventId eventData)"

text \<open>
  The body of the loop over the event blocks: the new \<^verbatim>\<open>currentLastId\<close> and what is
  sent. \<open>fwd\<close> is the test \<^verbatim>\<open>!isPaused && popupWindow && !popupWindow.isDestroyed()\<close>.
  A payload that \<^verbatim>\<open>JSON.parse\<close> rejects is only logged.
\<close>

definition on_message :: "env \<Rightarrow> bool \<Rightarrow> string \<Rightarrow> int \<Rightarrow> int \<times> effect list" where
  "on_message env fwd msg cur =
     (if trim msg = [] then (cur, [])
      else
        (case event_lines (split_str ''\<newline>'' msg) None None of (eventId, eventData) \<Rightarrow>
           (case eventData of
              None \<Rightarrow> (cur, [])
            | Some d \<Rightarrow>
                if d = [] then (cur, [])
                else
                  (case JSON_parse env d of
                     None \<Rightarrow> (cur, [])
                   | Some parsed \<Rightarrow>
                       ((case eventId of
                           None \<Rightarrow> cur
                         | Some n \<Rightarrow> if n \<noteq> 0 then n else cur),
                        if fwd then [Send (FactCheckAlert parsed)] else [])))))"

fun on_messages :: "env \<Rightarrow> bool \<Rightarrow> string list \<Rightarrow> int \<Rightarrow> int \<times> effect list" where
  "on_messages env fwd [] cur = (cur, [])"
| "on_messages env fwd (msg # msgs) cur =
     (case on_message env fwd msg cur of (cur1, e1) \<Rightarrow>
        (case on_messages env fwd msgs cur1 of (cur2, e2) \<Rightarrow> (cur2, e1 @ e2)))"

text \<open>The \<^verbatim>\<open>data\<close> handler of the response of request \<open>r\<close>.\<close>

definition sse_data :: "env \<Rightarrow> req \<Rightarrow> string \<Rightarrow> state \<Rightarrow> state \<times> effect list" where
  "sse_data env r chunk s =
     (case conns s r of
        None \<Rightarrow> (s, [])
      | Some c \<Rightarrow>
          if \<not> c_streaming c then (s, [])
          else
            (let messages = split_str ''\<newline>\<newline>'' (c_buffer c @ chunk)
             in (case on_messages env (\<not> isPaused s \<and> popupWindow s) (butlast messages)
                        (c_currentLastId c) of
                   (cur, e) \<Rightarrow>
                     (s\<lparr>conns := (conns s)(r \<mapsto> c\<lparr>c_buffer := last messages,
                                                      c_currentLastId := cur\<rparr>)\<rparr>, e))))"

text \<open>The \<^verbatim>\<open>end\<close> and \<^verbatim>\<open>error\<close> handlers of the response, and the \<^verbatim>\<open>error\<close> handler of the request.\<close>

definition sse_stream_closed :: "req \<Rightarrow> state \<Rightarrow> state \<times> effect list" where
  "sse_stream_closed r s =
     (case conns s r of
        None \<Rightarrow> (s, [])
      | Some c \<Rightarrow> if c_streaming c then scheduleSSEReconnect (c_currentLastId c) s else (s, []))"

definition sse_request_error :: "req \<Rightarrow> state \<Rightarrow> state \<times> effect list" where
  "sse_request_error r s =
     (case conns s r of
        None \<Rightarrow> (s, [])
      | Some c \<Rightarrow> scheduleSSEReconnect (c_lastId c) s)"

subsection \<open>The two child processes\<close>

text \<open>
  How the promise a function returns stands when the function returns: already
  resolved, already rejected with an error message, or pending on a process.
\<close>

datatype promise = Resolved | Rejected string | Pending proc

definition startBackend :: "env \<Rightarrow> state \<Rightarrow> state \<times> effect list \<times> promise" where
  "startBackend env s =
     (if backendProcess s \<noteq> None then (s, [], Resolved)
      else if \<not> existsSync env then
        (let msg = ''Python not found at '' @ pythonPath env @ ''. Run ./scripts/setup.sh first.''
         in (s, sendErrorToRenderer ''Setup required'' msg s, Rejected msg))
      else
        (let p = fresh s
         in (s\<lparr>backendProcess := Some p, fresh := Suc p\<rparr>, [SpawnBackend p], Pending p)))"

text \<open>
  The lookup \<^verbatim>\<open>choiceMap[sourceType]\<close> in the object literal: its four own properties,
  and the properties every object literal inherits, whose values are functions or
  objects and so pass the test \<^verbatim>\<open>if (!choice)\<close>. \<open>None\<close> is \<^verbatim>\<open>undefined\<close>.
\<close>

definition Object_prototype_keys :: "string list" where
  "Object_prototype_keys =
     [''constructor'', ''__proto__'', ''hasOwnProperty'', ''isPrototypeOf'',
      ''propertyIsEnumerable'', ''toLocaleString'', ''toString'', ''valueOf'',
      ''__defineGetter__'', ''__defineSetter__'', ''__lookupGetter__'', ''__lookupSetter__'']"

definition choiceMap :: "env \<Rightarrow> string \<Rightarrow> string option" where
  "choiceMap env k =
     (if k = ''youtube'' then Some ''1''
      else if k = ''meet'' then Some ''2''
      else if k = ''local'' then Some ''3''
      else if k = ''stream'' then Some ''4''
      else if k \<in> set Object_prototype_keys then Some (inherited_text env k)
      else None)"

definition startClient :: "env \<Rightarrow> string \<Rightarrow> string \<Rightarrow> state \<Rightarrow> state \<times> effect list \<times> promise" where
  "startClient env sourceType target s =
     (if clientProcess s \<noteq> None then (s, [], Rejected ''Client already running'')
      else
        (case choiceMap env sourceType of
           None \<Rightarrow> (s, [], Rejected (''Unknown source type: '' @ sourceType))
         | Some choice \<Rightarrow>
             (let p = fresh s;
                  safeTarget = filter (\<lambda>c. c \<noteq> CHR 0x0D \<and> c \<noteq> CHR 0x0A) target
              in (s\<lparr>clientProcess := Some p, fresh := Suc p\<rparr>,
                  [SpawnClient p, StdinWrite p (choice @ ''\<newline>''),
                   StdinWrite p (safeTarget @ ''\<newline>''), StdinEnd p],
                  Pending p))))"

text \<open>
  \<^verbatim>\<open>stopClient\<close> and \<^verbatim>\<open>stopBackend\<close> up to their return: the result says on which
  process the returned promise is pending, \<open>None\<close> when it is already resolved.
\<close>

definition stopClient :: "state \<Rightarrow> state \<times> effect list \<times> proc option" where
  "stopClient s =
     (case clientProcess s of
        None \<Rightarrow> (s, [], None)
      | Some p \<Rightarrow> (s\<lparr>clientProcess := None\<rparr>, [Kill p SIGINT], Some p))"

definition stopBackend :: "state \<Rightarrow> state \<times> effect list \<times> proc option" where
  "stopBackend s =
     (case backendProcess s of
        None \<Rightarrow> (s, [], None)
      | Some p \<Rightarrow> (s\<lparr>backendProcess := None\<rparr>, [Kill p SIGTERM], Some p))"

text \<open>The \<^verbatim>\<open>close\<close> handler that \<^verbatim>\<open>startBackend\<close> attaches to the process it spawns.\<close>

definition backend_close :: "int option \<Rightarrow> state \<Rightarrow> state \<times> effect list" where
  "backend_close code s =
     (let s1 = s\<lparr>backendProcess := None\<rparr>;
          e1 = sendToRenderer (BackendStatus ''stopped'') s1
      in (case stopClient s1 of (s2, e2, w) \<Rightarrow>
            (case disconnectSSE s2 of (s3, e3) \<Rightarrow>
               (s3, e1 @ e2 @ e3 @
                    sendErrorToRenderer ''Backend crashed''
                      (''Backend process exited with code '' @ String_code code) s3))))"

text \<open>The \<^verbatim>\<open>close\<close> handler that \<^verbatim>\<open>startClient\<close> attaches to the process it spawns.\<close>

definition client_close :: "int option \<Rightarrow> state \<Rightarrow> state \<times> effect list" where
  "client_close code s =
     (let s1 = s\<lparr>clientProcess := None\<rparr>;
          e1 = setTrayActive False s1 @ sendToRenderer (SessionStatus ''stopped'') s1
      in (case disconnectSSE s1 of (s2, e2) \<Rightarrow>
            (s2, e1 @ e2 @
                 (case code of
                    None \<Rightarrow> []
                  | Some c \<Rightarrow>
                      if c \<noteq> 0 then
                        sendErrorToRenderer ''Client crashed''
                          (''Client process exited with code '' @ String_int c) s2
                      else []))))"

text \<open>What the \<^verbatim>\<open>stdout\<close> handler of the capture process sends for an \<^verbatim>\<open>[ERROR]\<close> line.\<close>

definition toLowerCase :: "string \<Rightarrow> string" where
  "toLowerCase s =
     map (\<lambda>c. if 65 \<le> (of_char c :: nat) \<and> (of_char c :: nat) \<le> 90
               then char_of ((of_char c :: nat) + 32) else c) s"

definition capture_error :: "string \<Rightarrow> state \<Rightarrow> effect list" where
  "capture_error text s =
     (if \<not> includes_str text ''[ERROR]'' then []
      else
        (let errorLine =
               (case filter (\<lambda>l. includes_str l ''[ERROR]'') (split_str ''\<newline>'' text) of
                  [] \<Rightarrow> text
                | l # ls \<Rightarrow> l);
             detail = trim (if startsWith errorLine ''[ERROR]''
                            then dropWhile isWhitespace (drop 7 errorLine) else errorLine)
         in sendErrorToRenderer ''Capture error'' detail s @
            (if includes_str (toLowerCase detail) ''permission''
                \<or> includes_str (toLowerCase detail) ''capture''
             then sendErrorToRenderer ''Screen Recording may be required''
                    ''Grant Screen Recording in System Settings > Privacy & Security > Screen & System Audio Recording, then restart the app.'' s
                  @ [OpenExternal ''x-apple.systempreferences:com.apple.preference.security?Privacy_ScreenCapture'']
             else [])))"

subsection \<open>The session handlers\<close>

text \<open>
  The \<^verbatim>\<open>finally\<close> block of both handlers followed by their return: the flag is
  cleared and the value goes back to the renderer.
\<close>

definition finish :: "ipc \<Rightarrow> result \<Rightarrow> state \<Rightarrow> state \<times> effect list" where
  "finish ch res s = (s\<lparr>sessionOpInProgress := False, sessionOp := NoOp\<rparr>, [Reply ch res])"

text \<open>
  The \<^verbatim>\<open>catch\<close> block of \<^verbatim>\<open>start-session\<close> for an error with message \<open>msg\<close>:
  \<^verbatim>\<open>disconnectSSE(); await stopClient();\<close> and then the return of the error. When a
  capture process had to be stopped, the handler waits for it.
\<close>

definition rollback :: "string \<Rightarrow> state \<Rightarrow> state \<times> effect list" where
  "rollback msg s =
     (case disconnectSSE s of (s1, e1) \<Rightarrow>
        (case stopClient s1 of (s2, e2, w) \<Rightarrow>
           (case w of
              None \<Rightarrow> (case finish StartSession (Failure msg) s2 of (s3, e3) \<Rightarrow> (s3, e1 @ e2 @ e3))
            | Some p \<Rightarrow> (s2\<lparr>sessionOp := AwaitRollback msg p\<rparr>, e1 @ e2))))"

text \<open>The end of the \<^verbatim>\<open>try\<close> block, once \<^verbatim>\<open>startClient\<close> has resolved.\<close>

definition start_succeeded :: "state \<Rightarrow> state \<times> effect list" where
  "start_succeeded s =
     (let s1 = s\<lparr>isPaused := False\<rparr>
      in (case finish StartSession Success s1 of (s2, e2) \<Rightarrow> (s2, setTrayActive True s1 @ e2)))"

text \<open>The entry of \<^verbatim>\<open>start-session\<close>, up to \<^verbatim>\<open>await ensurePermissions()\<close>.\<close>

definition start_session :: "string \<Rightarrow> string \<Rightarrow> state \<Rightarrow> state \<times> effect list" where
  "start_session sourceType target s =
     (if sessionOpInProgress s
      then (s, [Reply StartSession (Failure ''Operation already in progress'')])
      else (s\<lparr>sessionOpInProgress := True, sessionOp := AwaitPermissions sourceType target\<rparr>, []))"

text \<open>
  From the answer of \<^verbatim>\<open>askForMediaAccess\<close> to the next wait: the rest of
  \<^verbatim>\<open>ensurePermissions\<close>, then \<^verbatim>\<open>startBackend()\<close>.
\<close>

definition start_after_permissions ::
  "env \<Rightarrow> string \<Rightarrow> string \<Rightarrow> bool \<Rightarrow> state \<Rightarrow> state \<times> effect list" where
  "start_after_permissions env sourceType target micGranted s =
     (if \<not> micGranted then
        (case finish StartSession (Failure ''Screen Recording permission required'') s of
           (s1, e1) \<Rightarrow>
             (s1, sendErrorToRenderer ''Microphone permission denied''
                    ''Please grant Microphone access in System Settings > Privacy & Security > Microphone.'' s
                  @ [OpenExternal ''x-apple.systempreferences:com.apple.preference.security?Privacy_Microphone'']
                  @ e1))
      else
        (case startBackend env s of
           (s1, e1, Resolved) \<Rightarrow> (s1\<lparr>sessionOp := AwaitHealth sourceType target\<rparr>, e1)
         | (s1, e1, Rejected msg) \<Rightarrow> (case rollback msg s1 of (s2, e2) \<Rightarrow> (s2, e1 @ e2))
         | (s1, e1, Pending p) \<Rightarrow> (s1\<lparr>sessionOp := AwaitBackend p sourceType target\<rparr>, e1)))"

text \<open>
  From the result of \<^verbatim>\<open>waitForBackendReady()\<close> (which is only logged) to the next
  wait: the relay is opened when there is none, then \<^verbatim>\<open>startClient\<close> is called.
\<close>

definition start_after_health ::
  "env \<Rightarrow> string \<Rightarrow> string \<Rightarrow> state \<Rightarrow> state \<times> effect list" where
  "start_after_health env sourceType target s =
     (case (if sseRequest s = None then connectSSE 0 s else (s, [])) of (s1, e1) \<Rightarrow>
        (case startClient env sourceType target s1 of
           (s2, e2, Resolved) \<Rightarrow> (case start_succeeded s2 of (s3, e3) \<Rightarrow> (s3, e1 @ e2 @ e3))
         | (s2, e2, Rejected msg) \<Rightarrow> (case rollback msg s2 of (s3, e3) \<Rightarrow> (s3, e1 @ e2 @ e3))
         | (s2, e2, Pending p) \<Rightarrow> (s2\<lparr>sessionOp := AwaitClient p\<rparr>, e1 @ e2)))"

text \<open>\<^verbatim>\<open>stop-session\<close>, up to the end of \<^verbatim>\<open>await stopClient()\<close> when that can be reached at once.\<close>

definition stop_session :: "state \<Rightarrow> state \<times> effect list" where
  "stop_session s =
     (if sessionOpInProgress s
      then (s, [Reply StopSession (Failure ''Operation already in progress'')])
      else
        (let s1 = s\<lparr>sessionOpInProgress := True, isPaused := False\<rparr>
         in (case disconnectSSE s1 of (s2, e2) \<Rightarrow>
               (case stopClient s2 of (s3, e3, w) \<Rightarrow>
                  (case w of
                     None \<Rightarrow>
                       (case finish StopSession Success s3 of (s4, e4) \<Rightarrow>
                          (s4, setTrayActive False s1 @ e2 @ e3 @ e4))
                   | Some p \<Rightarrow>
                       (s3\<lparr>sessionOp := AwaitStop p\<rparr>, setTrayActive False s1 @ e2 @ e3))))))"

definition get_session_state :: "state \<Rightarrow> result" where
  "get_session_state s =
     Snapshot (backendProcess s \<noteq> None) (clientProcess s \<noteq> None) (sseRequest s \<noteq> None) (isPaused s)"

definition pause_session :: "state \<Rightarrow> state \<times> effect list" where
  "pause_session s =
     (case disconnectSSE (s\<lparr>isPaused := True\<rparr>) of (s1, e1) \<Rightarrow>
        (s1, e1 @ [Reply PauseSession Success]))"

definition resume_session :: "state \<Rightarrow> state \<times> effect list" where
  "resume_session s =
     (case connectSSE 0 (s\<lparr>isPaused := False\<rparr>) of (s1, e1) \<Rightarrow>
        (s1, e1 @ [Reply ResumeSession Success]))"

subsection \<open>Shutdown\<close>

definition shutdown_finish :: "state \<Rightarrow> state \<times> effect list" where
  "shutdown_finish s =
     (s\<lparr>tray := False, shutdownOp := ShutDone\<rparr>, if tray s then [TrayDestroy] else [])"

definition shutdown_stop_backend :: "state \<Rightarrow> state \<times> effect list" where
  "shutdown_stop_backend s =
     (case stopBackend s of (s1, e1, w) \<Rightarrow>
        (case w of
           None \<Rightarrow> (case shutdown_finish s1 of (s2, e2) \<Rightarrow> (s2, e1 @ e2))
         | Some p \<Rightarrow> (s1\<lparr>shutdownOp := ShutAwaitBackend p\<rparr>, e1)))"

definition shutdownApp :: "state \<Rightarrow> state \<times> effect list" where
  "shutdownApp s =
     (if isShuttingDown s then (s, [])
      else
        (case disconnectSSE (s\<lparr>isShuttingDown := True, handlersRegistered := False\<rparr>) of
           (s1, e1) \<Rightarrow>
             (case stopClient s1 of (s2, e2, w) \<Rightarrow>
                (case w of
                   None \<Rightarrow>
                     (case shutdown_stop_backend s2 of (s3, e3) \<Rightarrow>
                        (s3, [RemoveIpcHandlers] @ e1 @ e2 @ e3))
                 | Some p \<Rightarrow>
                     (s2\<lparr>shutdownOp := ShutAwaitClient p\<rparr>, [RemoveIpcHandlers] @ e1 @ e2)))))"

subsection \<open>Events\<close>

text \<open>
  What can happen to the main process: an IPC invocation, the answer of the
  permission dialog (or its failure), the end of the health check, the timer of the
  \<^verbatim>\<open>withTimeout\<close> whose promise the handler awaits, output and exit of a child
  process and the timers set for it, the callbacks of an event stream request, the
  reconnect timer, and a request to shut down (a signal or \<^verbatim>\<open>before-quit\<close>). The
  environment decides which events happen and when; the model accepts every event in
  every state.
\<close>

datatype event =
    Invoke_start_session string string
  | Invoke_stop_session
  | Invoke_pause_session
  | Invoke_resume_session
  | Invoke_get_session_state
  | Permissions_answered bool
  | Permissions_threw string
  | Health_checked bool
  | Race_timeout
  | Backend_stdout proc string
  | Backend_close proc "int option"
  | Backend_start_timeout proc
  | Backend_stop_timeout proc
  | Client_stdout proc string
  | Client_close proc "int option"
  | Client_start_timeout proc
  | Client_stop_timeout proc
  | Sse_response req nat
  | Sse_data req string
  | Sse_end req
  | Sse_error req
  | Sse_request_error req
  | Reconnect_timer
  | Shutdown_requested

text \<open>Settling the promise of \<^verbatim>\<open>startBackend\<close> for process \<open>p\<close>, if the handler awaits it.\<close>

definition backend_ready :: "proc \<Rightarrow> state \<Rightarrow> state \<times> effect list" where
  "backend_ready p s =
     (case sessionOp s of
        AwaitBackend q sourceType target \<Rightarrow>
          if q = p then (s\<lparr>sessionOp := AwaitHealth sourceType target\<rparr>, []) else (s, [])
      | _ \<Rightarrow> (s, []))"

definition backend_failed :: "proc \<Rightarrow> string \<Rightarrow> state \<Rightarrow> state \<times> effect list" where
  "backend_failed p msg s =
     (case sessionOp s of
        AwaitBackend q sourceType target \<Rightarrow> if q = p then rollback msg s else (s, [])
      | _ \<Rightarrow> (s, []))"

text \<open>Settling the promise of \<^verbatim>\<open>startClient\<close> for process \<open>p\<close> (it only ever resolves).\<close>

definition client_started :: "proc \<Rightarrow> state \<Rightarrow> state \<times> effect list" where
  "client_started p s =
     (case sessionOp s of
        AwaitClient q \<Rightarrow> if q = p then start_succeeded s else (s, [])
      | _ \<Rightarrow> (s, []))"

text \<open>
  Settling the promise of \<^verbatim>\<open>stopClient\<close> for process \<open>p\<close>: the session handler that
  awaits it returns, and a shutdown that awaits it goes on to stop the service.
\<close>

definition client_stopped :: "proc \<Rightarrow> state \<Rightarrow> state \<times> effect list" where
  "client_stopped p s =
     (case (case sessionOp s of
              AwaitRollback msg q \<Rightarrow>
                if q = p then finish StartSession (Failure msg) s else (s, [])
            | AwaitStop q \<Rightarrow> if q = p then finish StopSession Success s else (s, [])
            | _ \<Rightarrow> (s, [])) of
        (s1, e1) \<Rightarrow>
          (case (case shutdownOp s1 of
                   ShutAwaitClient q \<Rightarrow> if q = p then shutdown_stop_backend s1 else (s1, [])
                 | _ \<Rightarrow> (s1, [])) of
             (s2, e2) \<Rightarrow> (s2, e1 @ e2)))"

definition backend_stopped :: "proc \<Rightarrow> state \<Rightarrow> state \<times> effect list" where
  "backend_stopped p s =
     (case shutdownOp s of
        ShutAwaitBackend q \<Rightarrow> if q = p then shutdown_finish s else (s, [])
      | _ \<Rightarrow> (s, []))"

text \<open>The timer of \<^verbatim>\<open>withTimeout\<close> rejects the promise the handler awaits.\<close>

definition race_timeout :: "state \<Rightarrow> state \<times> effect list" where
  "race_timeout s =
     (case sessionOp s of
        AwaitBackend p sourceType target \<Rightarrow> rollback ''Backend startup timed out after 60s'' s
      | AwaitClient p \<Rightarrow> rollback ''Client startup timed out after 120s'' s
      | _ \<Rightarrow> (s, []))"

definition permissions_answered :: "env \<Rightarrow> bool \<Rightarrow> state \<Rightarrow> state \<times> effect list" where
  "permissions_answered env micGranted s =
     (case sessionOp s of
        AwaitPermissions sourceType target \<Rightarrow>
          start_after_permissions env sourceType target micGranted s
      | _ \<Rightarrow> (s, []))"

text \<open>\<^verbatim>\<open>ensurePermissions()\<close> rejects, for one when the platform has no \<^verbatim>\<open>askForMediaAccess\<close>.\<close>

definition permissions_threw :: "string \<Rightarrow> state \<Rightarrow> state \<times> effect list" where
  "permissions_threw msg s =
     (case sessionOp s of
        AwaitPermissions sourceType target \<Rightarrow> rollback msg s
      | _ \<Rightarrow> (s, []))"

definition health_checked :: "env \<Rightarrow> state \<Rightarrow> state \<times> effect list" where
  "health_checked env s =
     (case sessionOp s of
        AwaitHealth sourceType target \<Rightarrow> start_after_health env sourceType target s
      | _ \<Rightarrow> (s, []))"

text \<open>One handler after another, the effects in order.\<close>

definition and_then ::
  "(state \<Rightarrow> state \<times> effect list) \<Rightarrow> (state \<Rightarrow> state \<times> effect list) \<Rightarrow>
   state \<Rightarrow> state \<times> effect list" where
  "and_then f g s = (case f s of (s1, e1) \<Rightarrow> (case g s1 of (s2, e2) \<Rightarrow> (s2, e1 @ e2)))"

text \<open>
  The reaction to one event. An invocation reaches its handler only while the
  handlers are registered. The handlers of a process run in the order in which they
  were attached to it, followed by the handlers that awaited a promise they settled.
\<close>

fun step :: "env \<Rightarrow> event \<Rightarrow> state \<Rightarrow> state \<times> effect list" where
  "step env (Invoke_start_session sourceType target) s =
     (if handlersRegistered s then start_session sourceType target s else (s, []))"
| "step env Invoke_stop_session s =
     (if handlersRegistered s then stop_session s else (s, []))"
| "step env Invoke_pause_session s =
     (if handlersRegistered s then pause_session s else (s, []))"
| "step env Invoke_resume_session s =
     (if handlersRegistered s then resume_session s else (s, []))"
| "step env Invoke_get_session_state s =
     (if handlersRegistered s then (s, [Reply GetSessionState (get_session_state s)]) else (s, []))"
| "step env (Permissions_answered micGranted) s = permissions_answered env micGranted s"
| "step env (Permissions_threw msg) s = permissions_threw msg s"
| "step env (Health_checked healthy) s = health_checked env s"
| "step env Race_timeout s = race_timeout s"
| "step env (Backend_stdout p text) s =
     (if includes_str text ''[READY] Backend running'' then backend_ready p s else (s, []))"
| "step env (Backend_close p code) s =
     and_then (backend_close code)
       (and_then (backend_failed p (''Backend exited with code '' @ String_code code))
          (backend_stopped p)) s"
| "step env (Backend_start_timeout p) s =
     backend_failed p ''Backend failed to start within 60 seconds'' s"
| "step env (Backend_stop_timeout p) s =
     and_then (\<lambda>s. (s, [Kill p SIGKILL])) (backend_stopped p) s"
| "step env (Client_stdout p text) s =
     and_then (\<lambda>s. (s, capture_error text s))
       (if includes_str text ''[CAPTURE] Recording'' then client_started p else (\<lambda>s. (s, []))) s"
| "step env (Client_close p code) s =
     and_then (client_close code) (and_then (client_started p) (client_stopped p)) s"
| "step env (Client_start_timeout p) s = client_started p s"
| "step env (Client_stop_timeout p) s =
     and_then (\<lambda>s. (s, [Kill p SIGTERM])) (client_stopped p) s"
| "step env (Sse_response r status) s = sse_response r status s"
| "step env (Sse_data r chunk) s = sse_data env r chunk s"
| "step env (Sse_end r) s = sse_stream_closed r s"
| "step env (Sse_error r) s = sse_stream_closed r s"
| "step env (Sse_request_error r) s = sse_request_error r s"
| "step env Reconnect_timer s = reconnect_timer_fired s"
| "step env Shutdown_requested s = shutdownApp s"

text \<open>A sequence of events, from a state: the state reached and everything done on the way.\<close>

fun run :: "env \<Rightarrow> event list \<Rightarrow> state \<Rightarrow> state \<times> effect list" where
  "run env [] s = (s, [])"
| "run env (e # es) s =
     (case step env e s of (s1, e1) \<Rightarrow> (case run env es s1 of (s2, e2) \<Rightarrow> (s2, e1 @ e2)))"

definition reachable :: "env \<Rightarrow> state \<Rightarrow> bool" where
  "reachable env s = (\<exists>es. fst (run env es initial) = s)"

subsection \<open>Notions used in the properties\<close>

text \<open>The values returned to the renderer, in order, among the effects of a step.\<close>

fun replies :: "effect list \<Rightarrow> (ipc \<times> result) list" where
  "replies [] = []"
| "replies (Reply ch res # es) = (ch, res) # replies es"
| "replies (e # es) = replies es"

text \<open>
  The flag \<^verbatim>\<open>_sessionOpInProgress\<close> is set exactly while a session handler has been
  admitted and has not returned.
\<close>

definition op_flag_inv :: "state \<Rightarrow> bool" where
  "op_flag_inv s = (sessionOpInProgress s = (sessionOp s \<noteq> NoOp))"









definition returned :: "state \<Rightarrow> bool" where
  "returned s = (\<not> sessionOpInProgress s \<and> sessionOp s = NoOp \<and> clientProcess s = None)"


text \<open>
  The delays with which the reconnect timer is armed, in order, among the effects of
  a step; and the relation between the timer and the delay that every step keeps:
  without a pending reconnect the delay is the initial one.
\<close>

fun reconnect_delays :: "effect list \<Rightarrow> rat list" where
  "reconnect_delays [] = []"
| "reconnect_delays (SetReconnectTimer d l # es) = d # reconnect_delays es"
| "reconnect_delays (e # es) = reconnect_delays es"

definition backoff_inv :: "state \<Rightarrow> bool" where
  "backoff_inv s = (sseReconnectTimer s = None \<longrightarrow> sseBackoffDelay s = SSE_BACKOFF_INITIAL)"

definition backoff_ok :: "state \<times> effect list \<Rightarrow> bool" where
  "backoff_ok r = (backoff_inv (fst r)
             \<and> set (reconnect_delays (snd r)) \<subseteq> {SSE_BACKOFF_INITIAL})"

text \<open>
  A step from \<open>s\<close> with result \<open>r\<close> leaves the service process alone: its handle is
  as before, and every signal of the step goes to the capture process of \<open>s\<close>.
\<close>

definition spares_service :: "state \<Rightarrow> state \<times> effect list \<Rightarrow> bool" where
  "spares_service s r =
     (backendProcess (fst r) = backendProcess s
      \<and> (\<forall>p sig. Kill p sig \<in> set (snd r) \<longrightarrow> clientProcess s = Some p))"

text \<open>
  One event as the service writes it on the stream: any lines (an \<^verbatim>\<open>id:\<close> line, a
  comment, another field), then the \<^verbatim>\<open>data:\<close> line, then the blank line that ends the
  event. The lines before the \<^verbatim>\<open>data:\<close> line are not empty and have no line break.
\<close>

fun join_lines :: "string list \<Rightarrow> string" where
  "join_lines [] = []"
| "join_lines [l] = l"
| "join_lines (l # l' # ls) = l @ ''\<newline>'' @ join_lines (l' # ls)"

definition field_line :: "string \<Rightarrow> bool" where
  "field_line l = (l \<noteq> [] \<and> CHR ''\<newline>'' \<notin> set l)"

definition event_block :: "string list \<Rightarrow> string \<Rightarrow> string" where
  "event_block hdr payload = join_lines (hdr @ [''data: '' @ payload])"

definition sse_event :: "string list \<Rightarrow> string \<Rightarrow> string" where
  "sse_event hdr payload = event_block hdr payload @ ''\<newline>\<newline>''"

text \<open>
  The cursor after a forwarded event whose lines before the \<^verbatim>\<open>data:\<close> line are \<open>hdr\<close>:
  the number of its last \<^verbatim>\<open>id:\<close> line, unless that is missing, not a number or zero.
\<close>

definition next_cursor :: "string list \<Rightarrow> int \<Rightarrow> int" where
  "next_cursor hdr cur =
     (case fst (event_lines hdr None None) of
        None \<Rightarrow> cur
      | Some n \<Rightarrow> if n \<noteq> 0 then n else cur)"

text \<open>The stream of request \<open>r\<close> delivers a sequence of chunks.\<close>

fun feed :: "env \<Rightarrow> req \<Rightarrow> string list \<Rightarrow> state \<Rightarrow> state \<times> effect list" where
  "feed env r [] s = (s, [])"
| "feed env r (chunk # chunks) s = and_then (sse_data env r chunk) (feed env r chunks) s"

subsection \<open>An environment and states for examples\<close>


definition sample_env :: env where
  "sample_env = \<lparr> JSON_parse = (\<lambda>d. if d = ''{}'' then Some (JObject []) else None),
     pythonPath = ''backend/venv/bin/python'', existsSync = True,
     inherited_text = (\<lambda>k. ''function'') \<rparr>"

text \<open>A session in full swing: service process 0, event stream request 1, capture process 2.\<close>

definition active_session :: state where
  "active_session = initial\<lparr> backendProcess := Some 0, sseRequest := Some 1,
     clientProcess := Some 2, fresh := 3,
     conns := (\<lambda>r. None)(1 \<mapsto> \<lparr>c_lastId = 0, c_streaming = True, c_buffer = [],
                                   c_currentLastId = 0\<rparr>) \<rparr>"

text \<open>The state right after \<^verbatim>\<open>start-session\<close> was admitted, while the permission dialog is open.\<close>

definition starting :: state where
  "starting = initial\<lparr>sessionOpInProgress := True,
                       sessionOp := AwaitPermissions ''youtube'' ''x''\<rparr>"

text \<open>The same operation later on, with the service running, at the health check.\<close>

definition checking_health :: state where
  "checking_health = initial\<lparr>backendProcess := Some 0, fresh := 1,
     sessionOpInProgress := True, sessionOp := AwaitHealth ''bogus'' ''x''\<rparr>"





section \<open>Properties\<close>

subsection \<open>The definitions by component, and the shape of the basic steps\<close>

lemmas relay_defs = disconnectSSE_def connectSSE_def scheduleSSEReconnect_def
  reconnect_timer_fired_def sse_response_def sse_data_def sse_stream_closed_def
  sse_request_error_def

lemmas process_defs = startBackend_def startClient_def stopClient_def stopBackend_def
  backend_close_def client_close_def

lemmas session_defs = finish_def rollback_def start_succeeded_def start_session_def
  start_after_permissions_def start_after_health_def stop_session_def pause_session_def
  resume_session_def

lemmas shutdown_defs = shutdown_finish_def shutdown_stop_backend_def shutdownApp_def

lemmas settle_defs = backend_ready_def backend_failed_def client_started_def
  client_stopped_def backend_stopped_def race_timeout_def permissions_answered_def
  permissions_threw_def health_checked_def

lemma replies_append: "replies (a @ b) = replies a @ replies b"
  by (induction a rule: replies.induct) simp_all

lemma replies_none [simp]:
  "replies (case x of None \<Rightarrow> [] | Some t \<Rightarrow> [ClearReconnectTimer]) = []"
  "replies (case y of None \<Rightarrow> [] | Some r \<Rightarrow> [Destroy r]) = []"
  "replies (case z of None \<Rightarrow> [] | Some p \<Rightarrow> [Kill p sig]) = []"
  "replies (setTrayActive a s) = []"
  "replies (sendToRenderer m s) = []"
  "replies (sendErrorToRenderer title detail s) = []"
  by (simp_all add: setTrayActive_def sendToRenderer_def sendErrorToRenderer_def
        split: option.splits)



lemma stopClient_eq:
  "stopClient s = (s\<lparr>clientProcess := None\<rparr>,
                   (case clientProcess s of None \<Rightarrow> [] | Some p \<Rightarrow> [Kill p SIGINT]),
                   clientProcess s)"
  by (cases "clientProcess s") (simp_all add: stopClient_def)

lemma stopBackend_eq:
  "stopBackend s = (s\<lparr>backendProcess := None\<rparr>,
                    (case backendProcess s of None \<Rightarrow> [] | Some p \<Rightarrow> [Kill p SIGTERM]),
                    backendProcess s)"
  by (cases "backendProcess s") (simp_all add: stopBackend_def)

lemma rollback_eq:
  "rollback msg s =
     (case clientProcess s of
        None \<Rightarrow>
          (s\<lparr>sseReconnectTimer := None, sseRequest := None,
             sseBackoffDelay := SSE_BACKOFF_INITIAL, clientProcess := None,
             sessionOpInProgress := False, sessionOp := NoOp\<rparr>,
           snd (disconnectSSE s) @ [Reply StartSession (Failure msg)])
      | Some p \<Rightarrow>
          (s\<lparr>sseReconnectTimer := None, sseRequest := None,
             sseBackoffDelay := SSE_BACKOFF_INITIAL, clientProcess := None,
             sessionOp := AwaitRollback msg p\<rparr>,
           snd (disconnectSSE s) @ [Kill p SIGINT]))"
  by (simp add: rollback_def stopClient_eq finish_def disconnectSSE_def Let_def
      split: option.splits)

lemma String_int_1: "String_int 1 = ''1''"
  by code_simp

subsection \<open>Starting a process that is already there\<close>

text \<open>
  C10. While a capture process handle exists, \<^verbatim>\<open>startClient\<close> rejects at once with
  \<^verbatim>\<open>Client already running\<close>: nothing is spawned and the state is as before. While a
  service process handle exists, \<^verbatim>\<open>startBackend\<close> resolves at once and does nothing.
\<close>

theorem second_start_client_rejects_backend_resolves:
  "(clientProcess s \<noteq> None \<longrightarrow>
      startClient env sourceType target s = (s, [], Rejected ''Client already running''))
   \<and> (backendProcess s \<noteq> None \<longrightarrow> startBackend env s = (s, [], Resolved))"
  by (simp add: startClient_def startBackend_def)

theorem second_start_witness:
  "clientProcess active_session \<noteq> None \<and> backendProcess active_session \<noteq> None
   \<and> startClient sample_env ''youtube'' ''x'' active_session
       = (active_session, [], Rejected ''Client already running'')
   \<and> startBackend sample_env active_session = (active_session, [], Resolved)"
  using second_start_client_rejects_backend_resolves
    [of active_session sample_env "''youtube''" "''x''"]
  by (simp add: active_session_def)

subsection \<open>One session operation at a time\<close>

lemma step_op_flag_inv: "op_flag_inv s \<Longrightarrow> op_flag_inv (fst (step env e s))"
  by (cases e)
     (auto simp add: op_flag_inv_def and_then_def relay_defs process_defs session_defs
        shutdown_defs settle_defs Let_def
      split: prod.splits option.splits pending.splits shutdown.splits promise.splits
        if_splits)

lemma fst_run_Cons: "fst (run env (e # es) s) = fst (run env es (fst (step env e s)))"
  by (simp split: prod.splits)

lemma run_op_flag_inv: "op_flag_inv s \<Longrightarrow> op_flag_inv (fst (run env es s))"
proof (induction es arbitrary: s)
  case Nil
  then show ?case by simp
next
  case (Cons e es)
  from Cons.prems have "op_flag_inv (fst (step env e s))" by (rule step_op_flag_inv)
  then have "op_flag_inv (fst (run env es (fst (step env e s))))" by (rule Cons.IH)
  then show ?case by (simp only: fst_run_Cons)
qed

lemma reachable_op_flag_inv: "reachable env s \<Longrightarrow> op_flag_inv s"
  unfolding reachable_def using run_op_flag_inv [of initial env]
  by (auto simp: op_flag_inv_def initial_def)

lemma starting_reachable: "reachable env starting"
proof -
  have "fst (run env [Invoke_start_session ''youtube'' ''x''] initial) = starting"
    by (simp add: start_session_def initial_def starting_def)
  then show ?thesis unfolding reachable_def by blast
qed

text \<open>
  C4. In every state the program can reach in which a \<^verbatim>\<open>start-session\<close> or
  \<^verbatim>\<open>stop-session\<close> handler has been admitted and has not yet returned, a call of
  either handler returns \<^verbatim>\<open>{success: false, error: 'Operation already in progress'}\<close>
  at once and leaves the whole state as it is: the call is not queued, and the
  operation in flight goes on from where it was.
\<close>

theorem start_and_stop_exclude_each_other:
  assumes "reachable env s" and "sessionOp s \<noteq> NoOp"
  shows "start_session sourceType target s
           = (s, [Reply StartSession (Failure ''Operation already in progress'')])
         \<and> stop_session s
           = (s, [Reply StopSession (Failure ''Operation already in progress'')])"
proof -
  from assms have "sessionOpInProgress s"
    using reachable_op_flag_inv [of env s] by (simp add: op_flag_inv_def)
  then show ?thesis by (simp add: start_session_def stop_session_def)
qed

theorem start_and_stop_exclude_each_other_witness:
  "reachable sample_env starting \<and> sessionOp starting \<noteq> NoOp
   \<and> start_session ''meet'' ''y'' starting
        = (starting, [Reply StartSession (Failure ''Operation already in progress'')])
   \<and> stop_session starting
        = (starting, [Reply StopSession (Failure ''Operation already in progress'')])"
proof -
  have r: "reachable sample_env starting" by (rule starting_reachable)
  have n: "sessionOp starting \<noteq> NoOp" by (simp add: starting_def)
  from r n start_and_stop_exclude_each_other [OF r n, of "''meet''" "''y''"]
  show ?thesis by simp
qed

subsection \<open>A crash of the service process\<close>

text \<open>
  What the \<^verbatim>\<open>close\<close> handler of the service process does at once, with a capture
  process \<open>c\<close> running: it signals \<open>c\<close>, destroys the event stream request and clears
  a pending reconnect, so that right after it the service, the capture process and
  the stream are reported as not running.
\<close>

lemma backend_close_cascade:
  assumes "clientProcess s = Some c"
  shows "case step env (Backend_close p code) s of (s', es) \<Rightarrow>
           Kill c SIGINT \<in> set es
         \<and> (\<forall>r. sseRequest s = Some r \<longrightarrow> Destroy r \<in> set es)
         \<and> (sseReconnectTimer s \<noteq> None \<longrightarrow> ClearReconnectTimer \<in> set es)
         \<and> clientProcess s' = None \<and> sseRequest s' = None \<and> sseReconnectTimer s' = None
         \<and> get_session_state s' = Snapshot False False False (isPaused s)"
  using assms
  by (auto simp add: and_then_def get_session_state_def relay_defs process_defs session_defs
        shutdown_defs settle_defs Let_def sendToRenderer_def sendErrorToRenderer_def
      split: prod.splits option.splits pending.splits shutdown.splits if_splits)

text \<open>
  C5. The code does not do what the claim says: the stream does not stay torn down.
  \<^verbatim>\<open>disconnectSSE\<close> destroys the request and forgets it, but the callbacks that
  \<^verbatim>\<open>connectSSE\<close> attached to it stay, and \<^verbatim>\<open>scheduleSSEReconnect\<close> does not ask whether
  a session is there. Here a session runs with service process 0, stream request 1
  and capture process 2, and the service process exits with code 1. The handler
  signals the capture process and destroys the request, and \<^verbatim>\<open>get-session-state\<close>
  reports all three as not running. Then the destroyed stream reports its error:
  the relay arms the reconnect timer, and when it fires, opens request 3 to the
  service that is gone. From then on \<^verbatim>\<open>get-session-state\<close> reports
  \<^verbatim>\<open>sseConnected: true\<close>, also after that request has failed, and the failure arms
  the timer once more.
\<close>

theorem service_crash_relay_reconnects:
  "snd (run sample_env
          [Invoke_start_session ''youtube'' ''x'', Permissions_answered True,
           Backend_stdout 0 ''[READY] Backend running'', Health_checked True,
           Client_stdout 2 ''[CAPTURE] Recording'', Sse_response 1 200,
           Backend_close 0 (Some 1), Invoke_get_session_state,
           Sse_error 1, Reconnect_timer, Invoke_get_session_state,
           Sse_request_error 3, Invoke_get_session_state] initial)
   = [SpawnBackend 0, HttpGet 1 0, SpawnClient 2, StdinWrite 2 ''1\<newline>'',
      StdinWrite 2 ''x\<newline>'', StdinEnd 2, TraySetActive True, Reply StartSession Success,
      Send (BackendStatus ''stopped''), Kill 2 SIGINT, Destroy 1,
      Send (ErrorMessage ''Backend crashed'' ''Backend process exited with code 1''),
      Reply GetSessionState (Snapshot False False False False),
      SetReconnectTimer 2000 0, HttpGet 3 0,
      Reply GetSessionState (Snapshot False False True False),
      SetReconnectTimer 2000 0,
      Reply GetSessionState (Snapshot False False True False)]"
  by code_simp
subsection \<open>Stopping a session\<close>

























subsection \<open>Failure of a start\<close>



subsection \<open>The service process outlives the session\<close>

text \<open>
  C9. Neither \<^verbatim>\<open>stop-session\<close> nor the rollback of a failed \<^verbatim>\<open>start-session\<close> touches
  the service process: the handle \<^verbatim>\<open>backendProcess\<close> is the same after the handler
  as before it, and every signal the handler sends goes to the capture process. The
  same holds when the handler resumes after waiting for the capture process, and
  for the events that end the wait, unless a shutdown of the application is under way.
  A shutdown does stop the service: once the capture process is gone it sends
  SIGTERM to the service process and clears the handle.
\<close>

theorem stop_and_rollback_spare_service:
  "spares_service s (stop_session s)
   \<and> spares_service s (rollback msg s)
   \<and> (shutdownOp s = NotShutting \<longrightarrow>
        spares_service s (client_stopped p s)
        \<and> backendProcess (fst (step env (Client_stop_timeout p) s)) = backendProcess s
        \<and> backendProcess (fst (step env (Client_close p code) s)) = backendProcess s)
   \<and> (\<not> isShuttingDown s \<and> clientProcess s = None \<and> backendProcess s = Some b \<longrightarrow>
        Kill b SIGTERM \<in> set (snd (shutdownApp s))
        \<and> backendProcess (fst (shutdownApp s)) = None)"
proof (intro conjI impI)
  show "spares_service s (stop_session s)"
    by (simp add: spares_service_def stop_session_def stopClient_eq disconnectSSE_def
          finish_def Let_def setTrayActive_def split: option.splits)
  show "spares_service s (rollback msg s)"
    by (simp add: spares_service_def rollback_eq disconnectSSE_def Let_def
        split: option.splits)
  show "spares_service s (client_stopped p s)" if "shutdownOp s = NotShutting"
    using that
    by (simp add: spares_service_def client_stopped_def finish_def split: pending.splits)
  show "backendProcess (fst (step env (Client_stop_timeout p) s)) = backendProcess s"
    if "shutdownOp s = NotShutting"
    using that
    by (simp add: and_then_def client_stopped_def finish_def split: pending.splits)
  show "backendProcess (fst (step env (Client_close p code) s)) = backendProcess s"
    if "shutdownOp s = NotShutting"
    using that
    by (simp add: and_then_def client_close_def disconnectSSE_def Let_def
          client_started_def start_succeeded_def client_stopped_def finish_def
        split: pending.splits)
  show "Kill b SIGTERM \<in> set (snd (shutdownApp s))"
    if "\<not> isShuttingDown s \<and> clientProcess s = None \<and> backendProcess s = Some b"
    using that
    by (simp add: shutdownApp_def disconnectSSE_def Let_def stopClient_eq
          shutdown_stop_backend_def stopBackend_eq)
  show "backendProcess (fst (shutdownApp s)) = None"
    if "\<not> isShuttingDown s \<and> clientProcess s = None \<and> backendProcess s = Some b"
    using that
    by (simp add: shutdownApp_def disconnectSSE_def Let_def stopClient_eq
          shutdown_stop_backend_def stopBackend_eq)
qed

theorem service_outlives_session_witness:
  "shutdownOp active_session = NotShutting
   \<and> stop_session active_session
       = (active_session\<lparr>sessionOpInProgress := True, sseRequest := None,
            clientProcess := None, sessionOp := AwaitStop 2\<rparr>,
          [TraySetActive False, Destroy 1, Kill 2 SIGINT])
   \<and> backendProcess (fst (stop_session active_session)) = Some 0
   \<and> spares_service active_session (stop_session active_session)
   \<and> spares_service active_session (rollback ''failed'' active_session)
   \<and> Kill 0 SIGTERM \<in> set (snd (shutdownApp (active_session\<lparr>clientProcess := None\<rparr>)))"
proof -
  have n: "shutdownOp active_session = NotShutting"
    by (simp add: active_session_def initial_def)
  have e: "stop_session active_session
       = (active_session\<lparr>sessionOpInProgress := True, sseRequest := None,
            clientProcess := None, sessionOp := AwaitStop 2\<rparr>,
          [TraySetActive False, Destroy 1, Kill 2 SIGINT])"
    by (simp add: stop_session_def stopClient_eq disconnectSSE_def Let_def setTrayActive_def
          active_session_def initial_def SSE_BACKOFF_INITIAL_def)
  have h: "\<not> isShuttingDown (active_session\<lparr>clientProcess := None\<rparr>)
           \<and> clientProcess (active_session\<lparr>clientProcess := None\<rparr>) = None
           \<and> backendProcess (active_session\<lparr>clientProcess := None\<rparr>) = Some 0"
    by (simp add: active_session_def initial_def)
  from stop_and_rollback_spare_service
         [where s = active_session and msg = "''failed''" and b = 0]
       stop_and_rollback_spare_service
         [where s = "active_session\<lparr>clientProcess := None\<rparr>" and msg = "''failed''"
            and b = 0]
       n e h
  show ?thesis by (simp add: active_session_def initial_def)
qed

subsection \<open>An unknown source type\<close>

text \<open>
  C3, as the claim states it, fails: the source type is examined only by
  \<^verbatim>\<open>startClient\<close>, the last step of the handler. Started from the initial state with
  the unknown source type \<^verbatim>\<open>bogus\<close>, the handler spawns the service process and opens
  the event relay before it fails, and afterwards \<^verbatim>\<open>backendRunning\<close> has changed from
  false to true.
\<close>

theorem unknown_source_type_counterexample:
  "snd (run sample_env
          [Invoke_start_session ''bogus'' ''x'', Permissions_answered True,
           Backend_stdout 0 ''[READY] Backend running'', Health_checked True] initial)
   = [SpawnBackend 0, HttpGet 1 0, Destroy 1,
      Reply StartSession (Failure ''Unknown source type: bogus'')]
   \<and> get_session_state initial = Snapshot False False False False
   \<and> get_session_state
        (fst (run sample_env
           [Invoke_start_session ''bogus'' ''x'', Permissions_answered True,
            Backend_stdout 0 ''[READY] Backend running'', Health_checked True] initial))
      = Snapshot True False False False"
  by (simp add: initial_def sample_env_def session_defs settle_defs relay_defs process_defs
        choiceMap_def Object_prototype_keys_def Let_def get_session_state_def
        SSE_BACKOFF_INITIAL_def)

text \<open>
  C3, amended. For a source type that is none of the four known kinds and not the
  name of a property that object literals inherit, \<^verbatim>\<open>startClient\<close> called without a
  capture process rejects with \<^verbatim>\<open>Unknown source type\<close>, spawns nothing and leaves the
  state as it is. The handler reaches that call after the permission request, the
  start of the service and the health check; from there it spawns no process,
  returns \<^verbatim>\<open>{success: false}\<close> with that error, and leaves \<^verbatim>\<open>backendRunning\<close> and
  \<^verbatim>\<open>isPaused\<close> as they were, with no capture process and the event relay closed.
\<close>

theorem unknown_source_type_fails_at_client_start:
  assumes "sourceType \<notin> {''youtube'', ''meet'', ''local'', ''stream''}"
    and "sourceType \<notin> set Object_prototype_keys"
    and "clientProcess s = None"
  shows "startClient env sourceType target s
           = (s, [], Rejected (''Unknown source type: '' @ sourceType))
       \<and> (case start_after_health env sourceType target s of (s', es) \<Rightarrow>
             replies es = [(StartSession, Failure (''Unknown source type: '' @ sourceType))]
           \<and> (\<forall>p. SpawnClient p \<notin> set es \<and> SpawnBackend p \<notin> set es)
           \<and> get_session_state s' = Snapshot (backendProcess s \<noteq> None) False False (isPaused s)
           \<and> \<not> sessionOpInProgress s')"
proof -
  from assms(1,2) have c: "choiceMap env sourceType = None"
    by (simp add: choiceMap_def)
  have 1: "\<And>s. clientProcess s = None \<Longrightarrow> startClient env sourceType target s
           = (s, [], Rejected (''Unknown source type: '' @ sourceType))"
    by (simp add: startClient_def c)
  show ?thesis
  proof (cases "sseRequest s")
    case None
    with assms(3) show ?thesis
      by (simp add: 1 start_after_health_def connectSSE_def disconnectSSE_def Let_def
            rollback_eq get_session_state_def replies_append split: option.splits)
  next
    case (Some r)
    with assms(3) show ?thesis
      by (simp add: 1 start_after_health_def disconnectSSE_def Let_def
            rollback_eq get_session_state_def replies_append split: option.splits)
  qed
qed

theorem unknown_source_type_witness:
  "''bogus'' \<notin> {''youtube'', ''meet'', ''local'', ''stream''}
   \<and> ''bogus'' \<notin> set Object_prototype_keys
   \<and> clientProcess checking_health = None
   \<and> startClient sample_env ''bogus'' ''x'' checking_health
       = (checking_health, [], Rejected ''Unknown source type: bogus'')
   \<and> snd (step sample_env (Health_checked True) checking_health)
       = [HttpGet 1 0, Destroy 1, Reply StartSession (Failure ''Unknown source type: bogus'')]
   \<and> get_session_state (fst (step sample_env (Health_checked True) checking_health))
       = Snapshot True False False False"
proof -
  have a: "''bogus'' \<notin> {''youtube'', ''meet'', ''local'', ''stream''}" by simp
  have b: "''bogus'' \<notin> set Object_prototype_keys" by (simp add: Object_prototype_keys_def)
  have c: "clientProcess checking_health = None"
    by (simp add: checking_health_def initial_def)
  have e: "snd (step sample_env (Health_checked True) checking_health)
       = [HttpGet 1 0, Destroy 1, Reply StartSession (Failure ''Unknown source type: bogus'')]"
    by (simp add: checking_health_def initial_def health_checked_def start_after_health_def
          connectSSE_def disconnectSSE_def startClient_def choiceMap_def
          Object_prototype_keys_def rollback_eq Let_def)
  have f: "step sample_env (Health_checked True) checking_health
             = start_after_health sample_env ''bogus'' ''x'' checking_health"
    by (simp add: health_checked_def checking_health_def)
  from unknown_source_type_fails_at_client_start [OF a b c, of sample_env "''x''"] a b c e f
  show ?thesis by (simp add: case_prod_beta checking_health_def initial_def)
qed

subsection \<open>Reconnecting the event stream\<close>

lemma resume_session_cursor:
  "snd (resume_session s)
     = snd (disconnectSSE (s\<lparr>isPaused := False\<rparr>))
       @ [HttpGet (fresh s) 0, Reply ResumeSession Success]"
  by (simp add: resume_session_def connectSSE_def disconnectSSE_def Let_def)

lemma reconnect_resets_backoff:
  "sseReconnectTimer s = Some lid \<Longrightarrow>
   sseBackoffDelay (fst (reconnect_timer_fired s)) = SSE_BACKOFF_INITIAL"
  by (simp add: reconnect_timer_fired_def connectSSE_def disconnectSSE_def Let_def)

text \<open>
  What \<^verbatim>\<open>scheduleSSEReconnect\<close> does by itself: the delay it leaves for the next call
  is 1.5 times the one it used, capped at 30000, so it never shrinks and never
  exceeds the cap. Called again and again with the timer cleared by hand, it would
  use 2000, 3000, 4500, 6750 and so on up to 30000.
\<close>

lemma schedule_grows_and_is_capped:
  assumes "sseReconnectTimer s = None" and "0 \<le> sseBackoffDelay s"
    and "sseBackoffDelay s \<le> SSE_BACKOFF_MAX"
  shows "scheduleSSEReconnect lid s
           = (s\<lparr>sseReconnectTimer := Some lid,
                sseBackoffDelay := min (sseBackoffDelay s * (3 / 2)) 30000\<rparr>,
              [SetReconnectTimer (sseBackoffDelay s) lid])"
    and "sseBackoffDelay s \<le> sseBackoffDelay (fst (scheduleSSEReconnect lid s))"
    and "sseBackoffDelay (fst (scheduleSSEReconnect lid s)) \<le> SSE_BACKOFF_MAX"
  using assms
  by (simp_all add: scheduleSSEReconnect_def SSE_BACKOFF_MULTIPLIER_def SSE_BACKOFF_MAX_def)

lemma schedule_sequence_in_isolation:
  "map (\<lambda>d. min (d * SSE_BACKOFF_MULTIPLIER) SSE_BACKOFF_MAX)
     [2000, 3000, 4500, 6750, 10125, 30375 / 2, 91125 / 4, 30000]
   = [3000, 4500, 6750, 10125, 30375 / 2, 91125 / 4, 30000, 30000]"
  by (simp add: SSE_BACKOFF_MULTIPLIER_def SSE_BACKOFF_MAX_def)

text \<open>
  In the program the delay is reset before it is used again: at every reconnect and
  at every disconnect. Without a pending reconnect the delay is 2000, and so every
  timer is armed with 2000.
\<close>

lemma reconnect_delays_append [simp]:
  "reconnect_delays (a @ b) = reconnect_delays a @ reconnect_delays b"
  by (induction a rule: reconnect_delays.induct) simp_all

lemma delays_none [simp]:
  "reconnect_delays (case x of None \<Rightarrow> [] | Some t \<Rightarrow> [ClearReconnectTimer]) = []"
  "reconnect_delays (case y of None \<Rightarrow> [] | Some r \<Rightarrow> [Destroy r]) = []"
  "reconnect_delays (case z of None \<Rightarrow> [] | Some p \<Rightarrow> [Kill p sig]) = []"
  "reconnect_delays (setTrayActive a s) = []"
  "reconnect_delays (sendToRenderer m s) = []"
  "reconnect_delays (sendErrorToRenderer title detail s) = []"
  "reconnect_delays (capture_error text s) = []"
  by (simp_all add: setTrayActive_def sendToRenderer_def sendErrorToRenderer_def
        capture_error_def Let_def split: option.splits)

lemma on_messages_delays [simp]: "reconnect_delays (snd (on_messages env fwd msgs cur)) = []"
  by (induction msgs arbitrary: cur)
     (simp_all add: on_message_def case_prod_beta split: option.splits)

lemma backoff_inv_frame [simp]:
  "backoff_inv (s\<lparr>backendProcess := a\<rparr>) = backoff_inv s"
  "backoff_inv (s\<lparr>clientProcess := b\<rparr>) = backoff_inv s"
  "backoff_inv (s\<lparr>tray := c\<rparr>) = backoff_inv s"
  "backoff_inv (s\<lparr>popupWindow := d\<rparr>) = backoff_inv s"
  "backoff_inv (s\<lparr>isShuttingDown := e\<rparr>) = backoff_inv s"
  "backoff_inv (s\<lparr>isPaused := f\<rparr>) = backoff_inv s"
  "backoff_inv (s\<lparr>sessionOpInProgress := g\<rparr>) = backoff_inv s"
  "backoff_inv (s\<lparr>handlersRegistered := h\<rparr>) = backoff_inv s"
  "backoff_inv (s\<lparr>sessionOp := i\<rparr>) = backoff_inv s"
  "backoff_inv (s\<lparr>shutdownOp := j\<rparr>) = backoff_inv s"
  "backoff_inv (s\<lparr>conns := k\<rparr>) = backoff_inv s"
  "backoff_inv (s\<lparr>fresh := l\<rparr>) = backoff_inv s"
  "backoff_inv (s\<lparr>sseRequest := m\<rparr>) = backoff_inv s"
  by (simp_all add: backoff_inv_def)

lemma backoff_ok_pair [simp]:
  "backoff_ok (s, es) = (backoff_inv s \<and> set (reconnect_delays es) \<subseteq> {SSE_BACKOFF_INITIAL})"
  by (simp add: backoff_ok_def)

lemma backoff_ok_disconnectSSE [simp]: "backoff_ok (disconnectSSE s)"
  by (simp add: backoff_inv_def disconnectSSE_def Let_def)

lemma backoff_ok_connectSSE [simp]: "backoff_ok (connectSSE lid s)"
  by (simp add: backoff_inv_def connectSSE_def disconnectSSE_def Let_def)

lemma backoff_ok_schedule [simp]: "backoff_inv s \<Longrightarrow> backoff_ok (scheduleSSEReconnect lid s)"
  by (simp add: backoff_inv_def scheduleSSEReconnect_def)

lemma backoff_ok_timer [simp]: "backoff_inv s \<Longrightarrow> backoff_ok (reconnect_timer_fired s)"
  by (simp add: reconnect_timer_fired_def split: option.splits)

lemma backoff_ok_response [simp]: "backoff_inv s \<Longrightarrow> backoff_ok (sse_response r status s)"
  using backoff_ok_schedule [of s]
  by (simp add: sse_response_def backoff_ok_def case_prod_beta split: option.splits)
     (simp add: backoff_inv_def)

lemma backoff_ok_data [simp]: "backoff_inv s \<Longrightarrow> backoff_ok (sse_data env r chunk s)"
  by (simp add: sse_data_def Let_def backoff_ok_def case_prod_beta split: option.splits)

lemma backoff_ok_closed [simp]: "backoff_inv s \<Longrightarrow> backoff_ok (sse_stream_closed r s)"
  by (simp add: sse_stream_closed_def split: option.splits)

lemma backoff_ok_req_error [simp]: "backoff_inv s \<Longrightarrow> backoff_ok (sse_request_error r s)"
  by (simp add: sse_request_error_def split: option.splits)

lemma backoff_ok_rollback [simp]: "backoff_ok (rollback msg s)"
  by (simp add: backoff_inv_def rollback_eq disconnectSSE_def Let_def split: option.splits)

lemma backoff_ok_finish [simp]: "backoff_inv s \<Longrightarrow> backoff_ok (finish ch res s)"
  by (simp add: finish_def)

lemma backoff_ok_start_succeeded [simp]: "backoff_inv s \<Longrightarrow> backoff_ok (start_succeeded s)"
  by (simp add: start_succeeded_def finish_def Let_def)

lemma backoff_ok_start_session [simp]: "backoff_inv s \<Longrightarrow> backoff_ok (start_session a b s)"
  by (simp add: start_session_def)

lemma backoff_ok_stop_session [simp]: "backoff_inv s \<Longrightarrow> backoff_ok (stop_session s)"
  by (simp add: backoff_inv_def stop_session_def stopClient_eq disconnectSSE_def finish_def
        Let_def split: option.splits)

lemma backoff_ok_pause [simp]: "backoff_ok (pause_session s)"
  by (simp add: backoff_inv_def pause_session_def disconnectSSE_def Let_def)

lemma backoff_ok_resume [simp]: "backoff_ok (resume_session s)"
  by (simp add: backoff_inv_def resume_session_def connectSSE_def disconnectSSE_def Let_def)

lemma backoff_ok_start_after_permissions [simp]:
  "backoff_inv s \<Longrightarrow> backoff_ok (start_after_permissions env a b g s)"
  using backoff_ok_rollback
  by (simp add: start_after_permissions_def startBackend_def finish_def Let_def backoff_ok_def
        case_prod_beta)

lemma backoff_ok_start_after_health [simp]:
  "backoff_inv s \<Longrightarrow> backoff_ok (start_after_health env a b s)"
  using backoff_ok_rollback backoff_ok_connectSSE
  by (simp add: start_after_health_def startClient_def Let_def backoff_ok_def case_prod_beta
        split: option.splits)

lemma backoff_ok_shutdown_stop_backend [simp]: "backoff_inv s \<Longrightarrow> backoff_ok (shutdown_stop_backend s)"
  by (simp add: shutdown_stop_backend_def stopBackend_eq shutdown_finish_def split: option.splits)

lemma backoff_ok_shutdownApp [simp]: "backoff_inv s \<Longrightarrow> backoff_ok (shutdownApp s)"
  by (simp add: shutdownApp_def stopClient_eq disconnectSSE_def Let_def backoff_inv_def
        shutdown_stop_backend_def stopBackend_eq shutdown_finish_def split: option.splits)

lemma backoff_ok_backend_close [simp]: "backoff_ok (backend_close code s)"
  by (simp add: backend_close_def stopClient_eq disconnectSSE_def Let_def backoff_inv_def)

lemma backoff_ok_client_close [simp]: "backoff_ok (client_close code s)"
  by (simp add: client_close_def disconnectSSE_def Let_def backoff_inv_def split: option.splits)

lemma backoff_ok_settle [simp]:
  "backoff_inv s \<Longrightarrow> backoff_ok (backend_ready p s)"
  "backoff_inv s \<Longrightarrow> backoff_ok (backend_failed p msg s)"
  "backoff_inv s \<Longrightarrow> backoff_ok (client_started p s)"
  "backoff_inv s \<Longrightarrow> backoff_ok (backend_stopped p s)"
  "backoff_inv s \<Longrightarrow> backoff_ok (race_timeout s)"
  "backoff_inv s \<Longrightarrow> backoff_ok (permissions_answered env g s)"
  "backoff_inv s \<Longrightarrow> backoff_ok (permissions_threw msg s)"
  "backoff_inv s \<Longrightarrow> backoff_ok (health_checked env s)"
  by (simp_all add: backend_ready_def backend_failed_def client_started_def
        backend_stopped_def race_timeout_def permissions_answered_def permissions_threw_def
        health_checked_def shutdown_finish_def
      split: pending.splits shutdown.splits)

lemma backoff_ok_client_stopped [simp]: "backoff_inv s \<Longrightarrow> backoff_ok (client_stopped p s)"
  by (simp add: client_stopped_def finish_def shutdown_stop_backend_def stopBackend_eq
        shutdown_finish_def
      split: pending.splits shutdown.splits option.splits)

lemma backoff_ok_and_then:
  assumes "backoff_ok (f s)" and "\<And>s1. backoff_inv s1 \<Longrightarrow> backoff_ok (g s1)"
  shows "backoff_ok (and_then f g s)"
  using assms(1) assms(2) [of "fst (f s)"]
  by (simp add: backoff_ok_def and_then_def case_prod_beta)

lemma step_backoff_ok: "backoff_inv s \<Longrightarrow> backoff_ok (step env e s)"
  by (cases e) (simp_all add: backoff_ok_and_then)

lemma run_backoff_ok: "backoff_inv s \<Longrightarrow> backoff_ok (run env es s)"
proof (induction es arbitrary: s)
  case Nil
  then show ?case by simp
next
  case (Cons e es)
  from step_backoff_ok [OF Cons.prems, of env e] have 1: "backoff_ok (step env e s)" .
  then have "backoff_ok (run env es (fst (step env e s)))"
    by (intro Cons.IH) (simp add: backoff_ok_def)
  with 1 show ?case by (simp add: backoff_ok_def case_prod_beta)
qed

text \<open>
  C1. The code does not do what the claim says: the delays used for consecutive
  failed attempts do not grow. \<^verbatim>\<open>scheduleSSEReconnect\<close> arms the timer with the
  current delay and multiplies the delay by 1.5, but the timer's callback calls
  \<^verbatim>\<open>connectSSE\<close>, whose first statement is \<^verbatim>\<open>disconnectSSE()\<close>, and that resets the
  delay to 2000. Here the relay is opened and three attempts in a row fail with a
  connection error: each reconnect is scheduled after 2000, not after 2000, 3000
  and 4500. And whatever happens from the initial state on, every reconnect is
  scheduled after 2000.
\<close>

theorem backoff_is_reset_by_every_reconnect:
  "snd (run sample_env
          [Invoke_resume_session, Sse_request_error 0, Reconnect_timer, Sse_request_error 1,
           Reconnect_timer, Sse_request_error 2] initial)
   = [HttpGet 0 0, Reply ResumeSession Success, SetReconnectTimer 2000 0,
      Destroy 0, HttpGet 1 0, SetReconnectTimer 2000 0,
      Destroy 1, HttpGet 2 0, SetReconnectTimer 2000 0]
   \<and> set (reconnect_delays (snd (run env es initial))) \<subseteq> {2000}"
proof
  show "snd (run sample_env
          [Invoke_resume_session, Sse_request_error 0, Reconnect_timer, Sse_request_error 1,
           Reconnect_timer, Sse_request_error 2] initial)
   = [HttpGet 0 0, Reply ResumeSession Success, SetReconnectTimer 2000 0,
      Destroy 0, HttpGet 1 0, SetReconnectTimer 2000 0,
      Destroy 1, HttpGet 2 0, SetReconnectTimer 2000 0]"
    by code_simp
  have "backoff_inv initial" by (simp add: backoff_inv_def initial_def SSE_BACKOFF_INITIAL_def)
  then have "backoff_ok (run env es initial)" by (rule run_backoff_ok)
  then show "set (reconnect_delays (snd (run env es initial))) \<subseteq> {2000}"
    by (simp add: backoff_ok_def SSE_BACKOFF_INITIAL_def)
qed

text \<open>
  C2. The code does not do what the claim says: \<^verbatim>\<open>resume-session\<close> calls
  \<^verbatim>\<open>connectSSE()\<close> without an argument, so the reconnect sends the cursor 0. The
  cursor of the connection lives in a variable of the response callback and is
  passed on only by the reconnects after a failure. Here a session is started, the
  event with id 5 is delivered, and the session is paused and resumed: the request
  opened by the resume is \<open>HttpGet 3 0\<close>, although the cursor of the connection was
  5. When the stream ends instead, the reconnect is \<open>HttpGet 3 5\<close>.
\<close>

theorem resume_reconnects_from_zero:
  "snd (run sample_env
          [Invoke_start_session ''youtube'' ''x'', Permissions_answered True,
           Backend_stdout 0 ''[READY] Backend running'', Health_checked True,
           Client_stdout 2 ''[CAPTURE] Recording'', Sse_response 1 200,
           Sse_data 1 ''id: 5\<newline>data: {}\<newline>\<newline>'',
           Invoke_pause_session, Invoke_resume_session] initial)
   = [SpawnBackend 0, HttpGet 1 0, SpawnClient 2, StdinWrite 2 ''1\<newline>'',
      StdinWrite 2 ''x\<newline>'', StdinEnd 2, TraySetActive True, Reply StartSession Success,
      Send (FactCheckAlert (JObject [])),
      Destroy 1, Reply PauseSession Success,
      HttpGet 3 0, Reply ResumeSession Success]
   \<and> map_option c_currentLastId
        (conns (fst (run sample_env
          [Invoke_start_session ''youtube'' ''x'', Permissions_answered True,
           Backend_stdout 0 ''[READY] Backend running'', Health_checked True,
           Client_stdout 2 ''[CAPTURE] Recording'', Sse_response 1 200,
           Sse_data 1 ''id: 5\<newline>data: {}\<newline>\<newline>''] initial)) 1)
      = Some 5
   \<and> snd (run sample_env
          [Invoke_start_session ''youtube'' ''x'', Permissions_answered True,
           Backend_stdout 0 ''[READY] Backend running'', Health_checked True,
           Client_stdout 2 ''[CAPTURE] Recording'', Sse_response 1 200,
           Sse_data 1 ''id: 5\<newline>data: {}\<newline>\<newline>'',
           Sse_end 1, Reconnect_timer] initial)
   = [SpawnBackend 0, HttpGet 1 0, SpawnClient 2, StdinWrite 2 ''1\<newline>'',
      StdinWrite 2 ''x\<newline>'', StdinEnd 2, TraySetActive True, Reply StartSession Success,
      Send (FactCheckAlert (JObject [])),
      SetReconnectTimer 2000 5, Destroy 1, HttpGet 3 5]"
  by code_simp

subsection \<open>Parsing the event stream\<close>

lemma split_str_not_Nil: "split_str sep s \<noteq> []"
  by (induction sep s rule: split_str.induct) (auto simp: neq_Nil_conv elim: cons_head.elims)

lemma cons_head_eq: "pss \<noteq> [] \<Longrightarrow> cons_head c pss = (c # hd pss) # tl pss"
  by (cases pss) simp_all

text \<open>A stretch without the first character of the separator goes to the first piece.\<close>

lemma split_str_skip:
  assumes "c0 \<notin> set x"
  shows "split_str (c0 # sep) (x @ rest)
           = (x @ hd (split_str (c0 # sep) rest)) # tl (split_str (c0 # sep) rest)"
  using assms
proof (induction x)
  case Nil
  then show ?case by (simp add: split_str_not_Nil)
next
  case (Cons a x)
  then show ?case by (auto simp add: cons_head_eq)
qed

lemma split_lines:
  assumes "ls \<noteq> []" and "\<forall>l \<in> set ls. CHR ''\<newline>'' \<notin> set l"
  shows "split_str ''\<newline>'' (join_lines ls) = ls"
  using assms
proof (induction ls rule: join_lines.induct)
  case 1
  then show ?case by simp
next
  case (2 l)
  then have "CHR ''\<newline>'' \<notin> set l" by simp
  from split_str_skip [OF this, of "[]" "[]"] show ?case by simp
next
  case (3 l l' ls)
  then have l: "CHR ''\<newline>'' \<notin> set l" by simp
  from 3 have IH: "split_str ''\<newline>'' (join_lines (l' # ls)) = l' # ls" by simp
  have "split_str ''\<newline>'' (''\<newline>'' @ join_lines (l' # ls)) = [] # l' # ls"
    using IH by simp
  with split_str_skip [OF l, of "[]" "''\<newline>'' @ join_lines (l' # ls)"]
  show ?case by simp
qed

lemma join_lines_hd:
  assumes "ls \<noteq> []" and "\<forall>l \<in> set ls. field_line l"
  shows "join_lines ls \<noteq> [] \<and> hd (join_lines ls) \<noteq> CHR ''\<newline>''"
  using assms
  by (induction ls rule: join_lines.induct) (auto simp: field_line_def dest: hd_in_set)

text \<open>Lines that are not empty never put two line breaks side by side.\<close>

lemma split_blocks_join:
  assumes "ls \<noteq> []" and "\<forall>l \<in> set ls. field_line l"
  shows "split_str ''\<newline>\<newline>'' (join_lines ls @ ''\<newline>\<newline>'' @ rest)
           = join_lines ls # split_str ''\<newline>\<newline>'' rest"
  using assms
proof (induction ls rule: join_lines.induct)
  case 1
  then show ?case by simp
next
  case (2 l)
  then have "CHR ''\<newline>'' \<notin> set l" by (simp add: field_line_def)
  from split_str_skip [OF this, of "''\<newline>''" "''\<newline>\<newline>'' @ rest"] show ?case by simp
next
  case (3 l l' ls)
  then have l: "CHR ''\<newline>'' \<notin> set l" by (simp add: field_line_def)
  let ?j = "join_lines (l' # ls)"
  from 3 have IH: "split_str ''\<newline>\<newline>'' (?j @ ''\<newline>\<newline>'' @ rest)
                     = ?j # split_str ''\<newline>\<newline>'' rest"
    by simp
  from 3 join_lines_hd [of "l' # ls"]
  obtain a j' where j: "?j = a # j'" "a \<noteq> CHR ''\<newline>''"
    by (cases ?j) auto
  have "split_str ''\<newline>\<newline>'' (''\<newline>'' @ ?j @ ''\<newline>\<newline>'' @ rest)
          = cons_head CHR ''\<newline>'' (split_str ''\<newline>\<newline>'' (?j @ ''\<newline>\<newline>'' @ rest))"
    using j by simp
  then have "split_str ''\<newline>\<newline>'' (''\<newline>'' @ ?j @ ''\<newline>\<newline>'' @ rest)
          = (''\<newline>'' @ ?j) # split_str ''\<newline>\<newline>'' rest"
    by (simp only: IH) simp
  with split_str_skip [OF l, of "''\<newline>''" "''\<newline>'' @ ?j @ ''\<newline>\<newline>'' @ rest"]
  show ?case by simp
qed

lemma split_blocks:
  assumes "\<forall>l \<in> set hdr. field_line l" and "CHR ''\<newline>'' \<notin> set payload"
  shows "split_str ''\<newline>\<newline>'' (sse_event hdr payload @ rest)
           = event_block hdr payload # split_str ''\<newline>\<newline>'' rest"
proof -
  have "\<forall>l \<in> set (hdr @ [''data: '' @ payload]). field_line l"
    using assms by (auto simp: field_line_def)
  from split_blocks_join [OF _ this, of rest] show ?thesis
    by (simp add: sse_event_def event_block_def)
qed

lemma trim_eq_Nil: "trim s = [] \<longleftrightarrow> (\<forall>c \<in> set s. isWhitespace c)"
proof -
  have "dropWhile isWhitespace (rev (dropWhile isWhitespace s)) = []
          \<longleftrightarrow> dropWhile isWhitespace s = []"
  proof
    assume a: "dropWhile isWhitespace (rev (dropWhile isWhitespace s)) = []"
    show "dropWhile isWhitespace s = []"
    proof (rule ccontr)
      assume n: "dropWhile isWhitespace s \<noteq> []"
      then have "\<not> isWhitespace (hd (dropWhile isWhitespace s))" by (rule hd_dropWhile)
      moreover from n have "hd (dropWhile isWhitespace s) \<in> set (dropWhile isWhitespace s)"
        by simp
      ultimately show False using a by (auto simp: dropWhile_eq_Nil_conv)
    qed
  qed (auto dest: set_dropWhileD)
  then have "trim s = [] \<longleftrightarrow> dropWhile isWhitespace s = []"
    by (simp add: trim_def)
  then show ?thesis by (simp only: dropWhile_eq_Nil_conv)
qed

lemma set_join_lines: "l \<in> set ls \<Longrightarrow> set l \<subseteq> set (join_lines ls)"
  by (induction ls rule: join_lines.induct) auto

lemma trim_block: "trim (event_block hdr payload) \<noteq> []"
proof -
  have "set (''data: '' @ payload) \<subseteq> set (event_block hdr payload)"
    unfolding event_block_def by (rule set_join_lines) simp
  then have "CHR ''d'' \<in> set (event_block hdr payload)" by auto
  moreover have "\<not> isWhitespace CHR ''d''" by (simp add: isWhitespace_def)
  ultimately show ?thesis by (auto simp: trim_eq_Nil)
qed

text \<open>The \<^verbatim>\<open>data:\<close> line comes last, so its payload is the one the event carries.\<close>

lemma event_lines_block:
  "event_lines (hdr @ [''data: '' @ payload]) i d
     = (fst (event_lines hdr i d), Some payload)"
  by (induction hdr arbitrary: i d) simp_all

text \<open>What the relay does with one event block.\<close>

lemma on_message_block:
  assumes "\<forall>l \<in> set hdr. field_line l" and "CHR ''\<newline>'' \<notin> set payload"
  shows "on_message env fwd (event_block hdr payload) cur
           = (if payload = [] then (cur, [])
              else case JSON_parse env payload of
                     None \<Rightarrow> (cur, [])
                   | Some v \<Rightarrow> (next_cursor hdr cur, if fwd then [Send (FactCheckAlert v)] else []))"
proof -
  have "\<forall>l \<in> set (hdr @ [''data: '' @ payload]). CHR ''\<newline>'' \<notin> set l"
    using assms by (auto simp: field_line_def)
  then have "split_str ''\<newline>'' (event_block hdr payload) = hdr @ [''data: '' @ payload]"
    unfolding event_block_def by (intro split_lines) simp_all
  then have 1: "event_lines (split_str ''\<newline>'' (event_block hdr payload)) None None
                  = (fst (event_lines hdr None None), Some payload)"
    by (simp only: event_lines_block)
  show ?thesis
    by (simp add: on_message_def 1 trim_block next_cursor_def split: option.splits)
qed

text \<open>With a single \<^verbatim>\<open>id:\<close> line before the payload, the cursor is the number it carries.\<close>

lemma next_cursor_id:
  "next_cursor [''id: '' @ ids] cur
     = (case parseInt ids of None \<Rightarrow> cur | Some n \<Rightarrow> if n \<noteq> 0 then n else cur)"
  by (simp add: next_cursor_def)

lemma next_cursor_no_id: "next_cursor [] cur = cur"
  by (simp add: next_cursor_def)

text \<open>
  Splitting is insensitive to how the stream is cut into chunks: the pieces of
  \<open>b @ c2\<close> are the complete pieces of \<open>b\<close>, then the pieces of what \<open>b\<close> left
  incomplete followed by \<open>c2\<close>.
\<close>

lemma split_str_single: "split_str sep s = [p] \<Longrightarrow> p = s"
proof (induction sep s arbitrary: p rule: split_str.induct)
  case (1 sep)
  then show ?case by simp
next
  case (2 sep c s)
  show ?case
  proof (cases "sep \<noteq> [] \<and> startsWith (c # s) sep")
    case True
    with "2.prems" show ?thesis by (simp add: split_str_not_Nil)
  next
    case False
    with "2.prems" have "cons_head c (split_str sep s) = [p]" by simp
    then obtain q where q: "split_str sep s = [q]" and p: "p = c # q"
      by (cases "split_str sep s") (auto simp: split_str_not_Nil)
    from "2.IH"(2) [OF False q] p show ?thesis by simp
  qed
qed

lemma startsWith_nn_append:
  "s \<noteq> [] \<Longrightarrow> startsWith (c # s @ t) ''\<newline>\<newline>'' = startsWith (c # s) ''\<newline>\<newline>''"
  by (cases s) simp_all

lemma split_str_append:
  "split_str ''\<newline>\<newline>'' (b @ c2)
     = butlast (split_str ''\<newline>\<newline>'' b)
       @ split_str ''\<newline>\<newline>'' (last (split_str ''\<newline>\<newline>'' b) @ c2)"
proof (induction "''\<newline>\<newline>''" b rule: split_str.induct)
  case 1
  then show ?case by simp
next
  case (2 c s)
  let ?nn = "''\<newline>\<newline>''"
  show ?case
  proof (cases "startsWith (c # s) ?nn")
    case True
    then obtain s' where s: "c = CHR ''\<newline>''" "s = CHR ''\<newline>'' # s'"
      by (cases s) auto
    from "2.hyps"(1) True s
    have IH: "split_str ?nn (s' @ c2)
       = butlast (split_str ?nn s') @ split_str ?nn (last (split_str ?nn s') @ c2)"
      by simp
    show ?thesis using s IH by (simp add: split_str_not_Nil)
  next
    case False
    with "2.hyps"(2)
    have IH: "split_str ?nn (s @ c2)
       = butlast (split_str ?nn s) @ split_str ?nn (last (split_str ?nn s) @ c2)"
      by simp
    show ?thesis
    proof (cases "s = []")
      case True
      then show ?thesis by simp
    next
      case ne: False
      with False have nsw: "\<not> startsWith (c # s @ c2) ?nn"
        using startsWith_nn_append [OF ne, of c c2] by simp
      have L: "split_str ?nn ((c # s) @ c2) = cons_head c (split_str ?nn (s @ c2))"
        using nsw by auto
      have R: "split_str ?nn (c # s) = cons_head c (split_str ?nn s)"
        using False by auto
      show ?thesis
      proof (cases "split_str ?nn s")
        case Nil
        then show ?thesis by (simp add: split_str_not_Nil)
      next
        case (Cons p ps)
        show ?thesis
        proof (cases ps)
          case Nil
          with Cons have "p = s" by (simp add: split_str_single)
          with Cons Nil have X: "split_str ?nn (c # s) = [c # s]"
            by (simp only: R) simp
          show ?thesis by (simp only: X) simp
        next
          case (Cons q qs)
          with \<open>split_str ?nn s = p # ps\<close> show ?thesis
            by (simp only: L R IH) (simp add: split_str_not_Nil)
        qed
      qed
    qed
  qed
qed

lemma on_messages_append:
  "on_messages env fwd (m1 @ m2) cur
     = (case on_messages env fwd m1 cur of (c1, e1) \<Rightarrow>
          (case on_messages env fwd m2 c1 of (c2, e2) \<Rightarrow> (c2, e1 @ e2)))"
  by (induction m1 arbitrary: cur) (simp_all add: case_prod_beta)

lemma sse_data_streaming:
  assumes "conns s r = Some c" and "c_streaming c"
  shows "\<exists>c'. conns (fst (sse_data env r chunk s)) r = Some c' \<and> c_streaming c'"
  using assms by (simp add: sse_data_def Let_def case_prod_beta)

lemma sse_data_append:
  assumes "conns s r = Some c" and "c_streaming c"
  shows "and_then (sse_data env r c1) (sse_data env r c2) s = sse_data env r (c1 @ c2) s"
proof -
  let ?nn = "''\<newline>\<newline>''"
  let ?M1 = "split_str ?nn (c_buffer c @ c1)"
  let ?M2 = "split_str ?nn (last ?M1 @ c2)"
  have M: "split_str ?nn (c_buffer c @ c1 @ c2) = butlast ?M1 @ ?M2"
    using split_str_append [of "c_buffer c @ c1" c2] by simp
  have b: "butlast (butlast ?M1 @ ?M2) = butlast ?M1 @ butlast ?M2"
    by (simp add: butlast_append split_str_not_Nil)
  have l: "last (butlast ?M1 @ ?M2) = last ?M2"
    by (simp add: split_str_not_Nil)
  show ?thesis
    using assms
    by (simp add: and_then_def sse_data_def Let_def case_prod_beta M b l on_messages_append)
qed

text \<open>Delivering chunks one by one is delivering their concatenation at once.\<close>

lemma feed_concat:
  assumes "conns s r = Some c" and "c_streaming c" and "chunks \<noteq> []"
  shows "feed env r chunks s = sse_data env r (concat chunks) s"
  using assms
proof (induction chunks arbitrary: s c)
  case Nil
  then show ?case by simp
next
  case (Cons chunk chunks)
  show ?case
  proof (cases "chunks = []")
    case True
    then show ?thesis by (simp add: and_then_def)
  next
    case False
    from sse_data_streaming [OF Cons.prems(1,2), of env chunk]
    obtain c' where c': "conns (fst (sse_data env r chunk s)) r = Some c'" "c_streaming c'"
      by blast
    from Cons.IH [OF c' False]
    have "feed env r (chunk # chunks) s
            = and_then (sse_data env r chunk) (sse_data env r (concat chunks)) s"
      by (simp add: and_then_def case_prod_beta)
    then show ?thesis
      by (simp add: sse_data_append [OF Cons.prems(1,2)])
  qed
qed

text \<open>
  C7. An open stream with an empty buffer, whose relay is not paused and has a
  window to send to, receives two events. Each is a \<^verbatim>\<open>data:\<close> line, after any number
  of other lines (\<^verbatim>\<open>id:\<close> lines, comments, other fields; none empty), and the blank line
  that ends it; a payload has no line break, and one that parses is not empty. The
  payload of the first event is rejected by \<^verbatim>\<open>JSON.parse\<close>, the payload of the second
  parses to \<open>v\<close>. However the stream is cut into chunks, exactly one message goes to
  the renderer, the alert \<open>v\<close>; the malformed event changes nothing, not even the
  cursor; and the state differs from the one before only in the buffer and cursor of
  this connection, so the request stays open and no reconnect is scheduled.
\<close>

theorem malformed_event_is_dropped:
  assumes "conns s r = Some c" and "c_streaming c" and "c_buffer c = []"
    and "\<not> isPaused s" and "popupWindow s"
    and "\<forall>l \<in> set hdr1. field_line l" and "CHR ''\<newline>'' \<notin> set bad"
    and "\<forall>l \<in> set hdr2. field_line l" and "CHR ''\<newline>'' \<notin> set good"
    and "JSON_parse env bad = None"
    and "good \<noteq> []" and "JSON_parse env good = Some v"
    and "concat chunks = sse_event hdr1 bad @ sse_event hdr2 good"
  shows "feed env r chunks s
           = (s\<lparr>conns := (conns s)(r \<mapsto> c\<lparr>c_buffer := [],
                  c_currentLastId := next_cursor hdr2 (c_currentLastId c)\<rparr>)\<rparr>,
              [Send (FactCheckAlert v)])"
proof -
  have "sse_event hdr1 bad \<noteq> []" by (simp add: sse_event_def)
  then have ne: "chunks \<noteq> []"
    using assms(13) by auto
  have sp: "split_str ''\<newline>\<newline>'' (sse_event hdr1 bad @ sse_event hdr2 good)
              = [event_block hdr1 bad, event_block hdr2 good, []]"
    using split_blocks [OF assms(6,7), of "sse_event hdr2 good"]
      split_blocks [OF assms(8,9), of "[]"]
    by simp
  have "feed env r chunks s = sse_data env r (sse_event hdr1 bad @ sse_event hdr2 good) s"
    using feed_concat [OF assms(1,2) ne, of env] assms(13) by simp
  also have "\<dots> = (s\<lparr>conns := (conns s)(r \<mapsto> c\<lparr>c_buffer := [],
                  c_currentLastId := next_cursor hdr2 (c_currentLastId c)\<rparr>)\<rparr>,
              [Send (FactCheckAlert v)])"
    using assms(1-5,10-12)
    by (simp add: sse_data_def Let_def sp on_message_block [OF assms(6,7)]
          on_message_block [OF assms(8,9)])
  finally show ?thesis .
qed

theorem malformed_event_witness:
  "conns active_session 1
     = Some \<lparr>c_lastId = 0, c_streaming = True, c_buffer = [], c_currentLastId = 0\<rparr>
   \<and> \<not> isPaused active_session \<and> popupWindow active_session
   \<and> JSON_parse sample_env ''oops'' = None
   \<and> JSON_parse sample_env ''{}'' = Some (JObject [])
   \<and> concat [''id: 5\<newline>data: oops\<newline>'', ''\<newline>: next\<newline>id: 6\<newline>da'', ''ta: {}\<newline>\<newline>'']
       = sse_event [''id: 5''] ''oops'' @ sse_event ['': next'', ''id: 6''] ''{}''
   \<and> feed sample_env 1
        [''id: 5\<newline>data: oops\<newline>'', ''\<newline>: next\<newline>id: 6\<newline>da'', ''ta: {}\<newline>\<newline>'']
        active_session
       = (active_session\<lparr>conns := (conns active_session)
            (1 \<mapsto> \<lparr>c_lastId = 0, c_streaming = True, c_buffer = [], c_currentLastId = 6\<rparr>)\<rparr>,
          [Send (FactCheckAlert (JObject []))])"
proof -
  let ?c = "\<lparr>c_lastId = 0, c_streaming = True, c_buffer = [], c_currentLastId = 0\<rparr>"
  let ?chunks = "[''id: 5\<newline>data: oops\<newline>'', ''\<newline>: next\<newline>id: 6\<newline>da'', ''ta: {}\<newline>\<newline>'']"
  have 1: "conns active_session 1 = Some ?c" by (simp add: active_session_def)
  have 2: "c_streaming ?c" and 3: "c_buffer ?c = []" by simp_all
  have 4: "\<not> isPaused active_session" and 5: "popupWindow active_session"
    by (simp_all add: active_session_def initial_def)
  have 6: "\<forall>l \<in> set [''id: 5'']. field_line l" and 7: "CHR ''\<newline>'' \<notin> set ''oops''"
    and 8: "\<forall>l \<in> set ['': next'', ''id: 6'']. field_line l" and 9: "CHR ''\<newline>'' \<notin> set ''{}''"
    by (simp_all add: field_line_def)
  have 10: "JSON_parse sample_env ''oops'' = None"
    and 12: "JSON_parse sample_env ''{}'' = Some (JObject [])"
    by (simp_all add: sample_env_def)
  have 11: "''{}'' \<noteq> []" by simp
  have 13: "concat ?chunks = sse_event [''id: 5''] ''oops'' @ sse_event ['': next'', ''id: 6''] ''{}''"
    by (simp add: sse_event_def event_block_def)
  have nc: "next_cursor ['': next'', ''id: 6''] 0 = 6"
    by code_simp
  from malformed_event_is_dropped [OF 1 2 3 4 5 6 7 8 9 10 11 12 13] 1 4 5 10 12 13
  show ?thesis by (simp add: nc)
qed
end
